theory Spec2Isabelle
  imports Complex_Main "HOL-Library.Option_ord" "HOL-Library.Product_Lexorder"
begin

section \<open>Data model: the SQLite tables as lists of rows\<close>

text \<open>
  The program keeps all of its state in one SQLite database. Every table is modelled as
  the list of its rows in rowid order; a row is a record holding the columns that the
  modelled functions read or write. Columns that only carry free text (notes, contact
  person, e-mail, phone, communication method, result payloads) are left out.

  Amounts are Python floats in the source. Each is modelled by the real number it
  denotes; where the source computes with amounts, the rounding of binary floating point
  is modelled as described in the section on floating-point amounts. Timestamps
  (\<open>datetime.now()\<close>, \<open>CURRENT_TIMESTAMP\<close>) are microseconds since the epoch, dates are
  day numbers.
\<close>

type_synonym timestamp = int
type_synonym date = int

definition microseconds_per_day :: int where
  "microseconds_per_day = 86400000000"

definition date_of :: "timestamp \<Rightarrow> date" where
  "date_of t = t div microseconds_per_day"

definition timedelta_days :: "int \<Rightarrow> timestamp" where
  "timedelta_days d = d * microseconds_per_day"

datatype workflow_status = PENDING | ACTIVE | COMPLETED | FAILED | CANCELLED

datatype action_type =
  EMAIL_REMINDER | PHONE_CALL | DUNNING_LETTER | LEGAL_REFERRAL | CREDIT_HOLD | ESCALATION | PAYMENT_PLAN

datatype invoice_status = OPEN | PARTIAL | PAID

datatype promise_status = P_ACTIVE | KEPT | BROKEN | PARTIALLY_KEPT | P_CANCELLED

text \<open>
  The instance id is the string \<open>WF_{workflow_id}_{customer_id}_{YYYYmmddHHMMSS}\<close>; the
  three parts determine the string and the string determines them, so the id is kept as
  the triple (the time part is the clock reading cut to whole seconds).
\<close>

datatype instance_id = WF int int int

datatype error =
  IntegrityError      \<comment> \<open>sqlite3.IntegrityError: primary key already present\<close>
| ValueError          \<comment> \<open>"Workflow instance ... not found"\<close>
| TypeError           \<comment> \<open>unpacking the customer row when the query returned None\<close>

record customer =
  c_customer_id :: int
  c_customer_name :: string
  c_customer_type :: "string option"
  c_is_credit_hold :: bool
  c_credit_limit :: real
  c_payment_terms_days :: real
  c_avg_days_to_pay :: real
  c_payment_reliability_score :: real
  c_total_sales_lifetime :: real
  c_customer_since :: "date option"

record invoice =
  i_invoice_id :: int
  i_customer_id :: int
  i_outstanding_amount :: real
  i_days_past_due :: int
  i_status :: invoice_status
  i_collection_status :: "string option"
  i_next_collection_action_date :: "date option"

record workflow =
  cw_workflow_id :: int
  cw_workflow_name :: string
  cw_days_past_due_trigger :: int
  cw_amount_threshold :: real
  cw_customer_type_filter :: "string option"
  cw_is_active :: bool
  cw_execution_order :: "int option"

record workflow_step =
  ws_step_id :: int
  ws_workflow_id :: int
  ws_step_order :: int
  ws_action_type :: action_type
  ws_template_id :: "string option"
  ws_assigned_to :: "string option"
  ws_delay_days :: int
  ws_is_active :: bool

record workflow_instance =
  wi_instance_id :: instance_id
  wi_workflow_id :: int
  wi_customer_id :: int
  wi_invoice_id :: "int option"
  wi_status :: workflow_status
  wi_current_step :: int
  wi_scheduled_date :: timestamp
  wi_created_date :: timestamp
  wi_completed_date :: "timestamp option"
  wi_last_action_date :: "timestamp option"
  wi_failure_reason :: "error option"
  wi_retry_count :: int

record log_entry =
  wl_instance_id :: instance_id
  wl_step_id :: int
  wl_status :: string

record activity =
  ca_customer_id :: "int option"
  ca_invoice_id :: "int option"
  ca_activity_date :: date
  ca_activity_type :: string
  ca_activity_result :: string
  ca_next_action :: "string option"
  ca_next_action_date :: "date option"
  ca_assigned_to :: "string option"
  ca_performed_by :: string

record credit_event =
  ch_customer_id :: int
  ch_event_date :: date
  ch_event_type :: string

record payment_promise =
  pp_promise_id :: int
  pp_customer_id :: int
  pp_invoice_id :: "int option"
  pp_promise_date :: date
  pp_promised_amount :: real
  pp_promised_payment_date :: date
  pp_status :: promise_status
  pp_actual_payment_date :: "date option"
  pp_actual_payment_amount :: "real option"
  pp_follow_up_date :: "date option"
  pp_follow_up_completed :: bool
  pp_escalation_required :: bool

record payment =
  p_payment_id :: int
  p_payment_date :: date

record payment_application =
  pa_payment_id :: int
  pa_invoice_id :: int
  pa_applied_amount :: real

record database =
  customers :: "customer list"
  invoices :: "invoice list"
  collection_workflows :: "workflow list"
  workflow_steps :: "workflow_step list"
  workflow_instances :: "workflow_instance list"
  workflow_execution_log :: "log_entry list"
  collection_activities :: "activity list"
  credit_history :: "credit_event list"
  payment_promises :: "payment_promise list"
  payments :: "payment list"
  payment_applications :: "payment_application list"

text \<open>
  The clock is an arbitrary function from the number of readings taken so far to the
  value read: an operation takes the clock \<open>clk\<close> and the count \<open>n\<close> of earlier readings
  and returns the count after its own readings. Nothing is assumed about the clock.
  Readings that only feed columns left out of the model are not counted.
\<close>

type_synonym clock = "nat \<Rightarrow> timestamp"

text \<open>Python truthiness of an optional string: \<open>None\<close> and the empty string are false.\<close>

definition truthy_str :: "string option \<Rightarrow> bool" where
  "truthy_str s = (case s of None \<Rightarrow> False | Some t \<Rightarrow> t \<noteq> [])"

text \<open>Python truthiness of an optional integer: \<open>None\<close> and \<open>0\<close> are false.\<close>

definition truthy_int :: "int option \<Rightarrow> bool" where
  "truthy_int x = (case x of None \<Rightarrow> False | Some i \<Rightarrow> i \<noteq> 0)"

section \<open>Floating-point amounts\<close>

text \<open>
  Amounts are Python floats and SQLite REAL values, that is IEEE 754 binary64 numbers; the
  model represents each by the real number it denotes. Comparisons of floats are exact,
  whereas products, differences, quotients and sums are rounded. The rounded operations
  are a parameter \<open>fa\<close> of every operation that computes with amounts:
  \<open>fa_add\<close>, \<open>fa_sub\<close>, \<open>fa_mul\<close> and \<open>fa_div\<close> are Python's \<open>x + y\<close>, \<open>x - y\<close>, \<open>x * y\<close> and
  \<open>x / y\<close> on floats, \<open>fa_sum\<close> is SQLite's \<open>SUM\<close> over the values of a non-empty set of rows,
  \<open>fa_pysum\<close> is Python's builtin \<open>sum\<close>, and \<open>fa_round2\<close> is Python's \<open>round(x, 2)\<close>.
  General statements hold for every \<open>fa\<close>; \<open>ieee_double\<close> below is the instance used to run
  the operations on concrete data.
\<close>

record float_arith =
  fa_add :: "real \<Rightarrow> real \<Rightarrow> real"
  fa_sub :: "real \<Rightarrow> real \<Rightarrow> real"
  fa_mul :: "real \<Rightarrow> real \<Rightarrow> real"
  fa_div :: "real \<Rightarrow> real \<Rightarrow> real"
  fa_sum :: "real list \<Rightarrow> real"
  fa_pysum :: "real list \<Rightarrow> real"
  fa_round2 :: "real \<Rightarrow> real"

text \<open>
  The float literals of the sources: the binary64 number nearest to the decimal written in
  the program text.
\<close>

definition py_0_9 :: real where "py_0_9 = 8106479329266893 / 9007199254740992"
definition py_0_99 :: real where "py_0_99 = 4458563631096791 / 4503599627370496"
definition py_0_01 :: real where "py_0_01 = 5764607523034235 / 576460752303423488"

text \<open>Rounding to the nearest integer, a tie going to the even one.\<close>

definition round_half_even :: "real \<Rightarrow> int" where
  "round_half_even x =
     (let f = \<lfloor>x\<rfloor>; d = x - real_of_int f
      in if d < 1 / 2 then f else if d > 1 / 2 then f + 1 else if even f then f else f + 1)"

text \<open>
  The binary exponent \<open>e\<close> with \<open>2 ^ e \<le> x < 2 ^ (e + 1)\<close> of a positive \<open>x\<close>, searched in at
  most \<open>k\<close> steps from the starting value.
\<close>

primrec binary_exponent :: "nat \<Rightarrow> real \<Rightarrow> int \<Rightarrow> int" where
  "binary_exponent 0 x e = e"
| "binary_exponent (Suc k) x e =
     (if 2 \<le> x then binary_exponent k (x / 2) (e + 1)
      else if x < 1 then binary_exponent k (x * 2) (e - 1)
      else e)"

definition pow2 :: "int \<Rightarrow> real" where
  "pow2 e = (if 0 \<le> e then 2 ^ nat e else 1 / 2 ^ nat (- e))"

text \<open>
  Rounding of a real to binary64 in the default mode (to nearest, ties to even): 53
  significant bits, the exponent not below -1022 (smaller values are subnormal).
  Results beyond the largest finite double, which IEEE arithmetic turns into an infinity,
  are outside the model.
\<close>

definition double_round :: "real \<Rightarrow> real" where
  "double_round x =
     (if x = 0 then 0
      else (let a = \<bar>x\<bar>;
                e = max (binary_exponent 1100 a 0) (- 1022);
                ulp = pow2 (e - 52)
            in sgn x * (of_int (round_half_even (a / ulp)) * ulp)))"

text \<open>
  The instance for IEEE 754 binary64: each operation is the exact one followed by
  rounding; \<open>round(x, 2)\<close> is the double nearest to the multiple of 1/100 nearest to \<open>x\<close>.
  Both sums add from left to right starting at zero. Recent versions of SQLite and of
  Python compensate the rounding error of a sum; the result is the same whenever every
  partial sum is a double, as it is in the databases this instance is run on.
\<close>

definition ieee_double :: float_arith where
  "ieee_double =
     \<lparr>fa_add = (\<lambda>x y. double_round (x + y)),
      fa_sub = (\<lambda>x y. double_round (x - y)),
      fa_mul = (\<lambda>x y. double_round (x * y)),
      fa_div = (\<lambda>x y. double_round (x / y)),
      fa_sum = (\<lambda>xs. foldl (\<lambda>s x. double_round (s + x)) 0 xs),
      fa_pysum = (\<lambda>xs. foldl (\<lambda>s x. double_round (s + x)) 0 xs),
      fa_round2 = (\<lambda>x. double_round (of_int (round_half_even (x * 100)) / 100))\<rparr>"

section \<open>Workflow engine (ar_workflow_engine.py)\<close>

subsection \<open>trigger_workflows\<close>

text \<open>
  The sub-select of the trigger query: the invoice ids of all instances whose status is
  PENDING or ACTIVE and whose invoice id is not NULL. It does not look at the workflow id.
\<close>

definition active_invoice_ids :: "database \<Rightarrow> int list" where
  "active_invoice_ids db =
     concat (map (\<lambda>wi. case wi_invoice_id wi of None \<Rightarrow> [] | Some i \<Rightarrow> [i])
       (filter (\<lambda>wi. wi_status wi = PENDING \<or> wi_status wi = ACTIVE) (workflow_instances db)))"

text \<open>The WHERE clause of the trigger query without the NOT IN part.\<close>

definition trigger_matches :: "workflow \<Rightarrow> invoice \<Rightarrow> customer \<Rightarrow> bool" where
  "trigger_matches w i c \<longleftrightarrow>
     i_customer_id i = c_customer_id c \<and>
     i_status i = OPEN \<and>
     i_days_past_due i \<ge> cw_days_past_due_trigger w \<and>
     i_outstanding_amount i \<ge> cw_amount_threshold w \<and>
     (if truthy_str (cw_customer_type_filter w)
      then c_customer_type c = cw_customer_type_filter w else True)"

definition matching_invoices :: "workflow \<Rightarrow> database \<Rightarrow> (int \<times> int) list" where
  "matching_invoices w db =
     [(i_invoice_id i, i_customer_id i).
        i \<leftarrow> invoices db, c \<leftarrow> customers db,
        trigger_matches w i c \<and> i_invoice_id i \<notin> set (active_invoice_ids db)]"

definition create_workflow_instance ::
  "clock \<Rightarrow> int \<Rightarrow> int \<Rightarrow> int option \<Rightarrow> nat \<Rightarrow> database \<Rightarrow> (error + instance_id) \<times> nat \<times> database" where
  "create_workflow_instance clk workflow_id customer_id invoice_id n db =
     (let instance_id = WF workflow_id customer_id (clk n div 1000000);
          scheduled = clk (n + 1)
      in if instance_id \<in> set (map wi_instance_id (workflow_instances db))
         then (Inl IntegrityError, n + 2, db)
         else (Inr instance_id, n + 3,
               db\<lparr>workflow_instances := workflow_instances db @
                 [\<lparr>wi_instance_id = instance_id, wi_workflow_id = workflow_id,
                   wi_customer_id = customer_id, wi_invoice_id = invoice_id,
                   wi_status = PENDING, wi_current_step = 0,
                   wi_scheduled_date = scheduled, wi_created_date = clk (n + 2),
                   wi_completed_date = None, wi_last_action_date = None,
                   wi_failure_reason = None, wi_retry_count = 0\<rparr>]\<rparr>))"

text \<open>
  The inner loop over the fetched invoices. Every insert is committed on its own
  connection, so an exception leaves the instances created so far in the table.
\<close>

fun trigger_invoices ::
  "clock \<Rightarrow> int \<Rightarrow> (int \<times> int) list \<Rightarrow> instance_id list \<Rightarrow> nat \<Rightarrow> database
     \<Rightarrow> (error + instance_id list) \<times> nat \<times> database" where
  "trigger_invoices clk workflow_id [] triggered n db = (Inr triggered, n, db)"
| "trigger_invoices clk workflow_id ((invoice_id, customer_id) # rest) triggered n db =
     (case create_workflow_instance clk workflow_id customer_id (Some invoice_id) n db of
        (Inl e, n', db') \<Rightarrow> (Inl e, n', db')
      | (Inr instance_id, n', db') \<Rightarrow>
          trigger_invoices clk workflow_id rest (triggered @ [instance_id]) n' db')"

text \<open>The outer loop over the active workflows; each query sees the inserts made so far.\<close>

fun trigger_loop ::
  "clock \<Rightarrow> workflow list \<Rightarrow> instance_id list \<Rightarrow> nat \<Rightarrow> database
     \<Rightarrow> (error + instance_id list) \<times> nat \<times> database" where
  "trigger_loop clk [] triggered n db = (Inr triggered, n, db)"
| "trigger_loop clk (w # ws) triggered n db =
     (case trigger_invoices clk (cw_workflow_id w) (matching_invoices w db) triggered n db of
        (Inl e, n', db') \<Rightarrow> (Inl e, n', db')
      | (Inr triggered', n', db') \<Rightarrow> trigger_loop clk ws triggered' n' db')"

text \<open>
  \<open>ORDER BY execution_order\<close>: NULL sorts first (as \<open>None\<close> does here); rows with equal
  keys are taken in table order.
\<close>

definition active_workflows :: "database \<Rightarrow> workflow list" where
  "active_workflows db = sort_key cw_execution_order (filter cw_is_active (collection_workflows db))"

definition trigger_workflows ::
  "clock \<Rightarrow> nat \<Rightarrow> database \<Rightarrow> (error + instance_id list) \<times> nat \<times> database" where
  "trigger_workflows clk n db = trigger_loop clk (active_workflows db) [] n db"

subsection \<open>Actions\<close>

datatype action_result =
  Email_sent | Call_scheduled | Dunning_letter_sent | Credit_hold_applied
| Legal_referral_created | Case_escalated | Not_implemented

text \<open>Python's \<open>s or default\<close> on an optional string.\<close>

definition str_or :: "string option \<Rightarrow> string \<Rightarrow> string" where
  "str_or s d = (case s of None \<Rightarrow> d | Some t \<Rightarrow> (if t = [] then d else t))"

text \<open>
  The scalar sub-select \<open>(SELECT customer_id FROM customers WHERE customer_name = ?)\<close>:
  the id of the first customer with that name, NULL when there is none.
\<close>

definition customer_id_by_name :: "database \<Rightarrow> string \<Rightarrow> int option" where
  "customer_id_by_name db name =
     map_option c_customer_id (List.find (\<lambda>c. c_customer_name c = name) (customers db))"

definition add_activity :: "activity \<Rightarrow> database \<Rightarrow> database" where
  "add_activity a db = db\<lparr>collection_activities := collection_activities db @ [a]\<rparr>"

definition send_email_reminder ::
  "clock \<Rightarrow> customer option \<Rightarrow> int option \<Rightarrow> nat \<Rightarrow> database
     \<Rightarrow> (error + action_result) \<times> nat \<times> database" where
  "send_email_reminder clk customer_data invoice_id n db =
     (case customer_data of
        None \<Rightarrow> (Inl TypeError, n, db)
      | Some c \<Rightarrow>
          (Inr Email_sent, n + 1,
           add_activity
             \<lparr>ca_customer_id = customer_id_by_name db (c_customer_name c),
              ca_invoice_id = invoice_id, ca_activity_date = date_of (clk n),
              ca_activity_type = ''EMAIL'', ca_activity_result = ''SENT'',
              ca_next_action = None, ca_next_action_date = None,
              ca_assigned_to = None, ca_performed_by = ''Workflow Engine''\<rparr> db))"

definition schedule_phone_call ::
  "clock \<Rightarrow> customer option \<Rightarrow> string option \<Rightarrow> nat \<Rightarrow> database
     \<Rightarrow> (error + action_result) \<times> nat \<times> database" where
  "schedule_phone_call clk customer_data assigned_to n db =
     (case customer_data of
        None \<Rightarrow> (Inl TypeError, n, db)
      | Some c \<Rightarrow>
          (Inr Call_scheduled, n + 2,
           add_activity
             \<lparr>ca_customer_id = customer_id_by_name db (c_customer_name c),
              ca_invoice_id = None, ca_activity_date = date_of (clk n),
              ca_activity_type = ''PHONE_CALL'', ca_activity_result = ''SCHEDULED'',
              ca_next_action = Some ''MAKE_CALL'',
              ca_next_action_date = Some (date_of (clk (n + 1) + timedelta_days 1)),
              ca_assigned_to = Some (str_or assigned_to ''Collection Team''),
              ca_performed_by = ''Workflow Engine''\<rparr> db))"

definition generate_dunning_letter ::
  "clock \<Rightarrow> customer option \<Rightarrow> int option \<Rightarrow> nat \<Rightarrow> database
     \<Rightarrow> (error + action_result) \<times> nat \<times> database" where
  "generate_dunning_letter clk customer_data invoice_id n db =
     (case customer_data of
        None \<Rightarrow> (Inl TypeError, n, db)
      | Some c \<Rightarrow>
          (Inr Dunning_letter_sent, n + 1,
           add_activity
             \<lparr>ca_customer_id = customer_id_by_name db (c_customer_name c),
              ca_invoice_id = invoice_id, ca_activity_date = date_of (clk n),
              ca_activity_type = ''LETTER'', ca_activity_result = ''SENT'',
              ca_next_action = None, ca_next_action_date = None,
              ca_assigned_to = None, ca_performed_by = ''Workflow Engine''\<rparr> db))"

definition apply_credit_hold ::
  "clock \<Rightarrow> int \<Rightarrow> nat \<Rightarrow> database \<Rightarrow> (error + action_result) \<times> nat \<times> database" where
  "apply_credit_hold clk customer_id n db =
     (Inr Credit_hold_applied, n + 1,
      db\<lparr>customers :=
            map (\<lambda>c. if c_customer_id c = customer_id then c\<lparr>c_is_credit_hold := True\<rparr> else c)
              (customers db),
          credit_history := credit_history db @
            [\<lparr>ch_customer_id = customer_id, ch_event_date = date_of (clk n),
              ch_event_type = ''CREDIT_HOLD''\<rparr>]\<rparr>)"

definition create_legal_referral ::
  "clock \<Rightarrow> customer option \<Rightarrow> int option \<Rightarrow> nat \<Rightarrow> database
     \<Rightarrow> (error + action_result) \<times> nat \<times> database" where
  "create_legal_referral clk customer_data invoice_id n db =
     (case customer_data of
        None \<Rightarrow> (Inl TypeError, n, db)
      | Some c \<Rightarrow>
          (Inr Legal_referral_created, n + 1,
           add_activity
             \<lparr>ca_customer_id = customer_id_by_name db (c_customer_name c),
              ca_invoice_id = invoice_id, ca_activity_date = date_of (clk n),
              ca_activity_type = ''LEGAL_REFERRAL'', ca_activity_result = ''REFERRED'',
              ca_next_action = None, ca_next_action_date = None,
              ca_assigned_to = Some ''Legal Department'',
              ca_performed_by = ''Workflow Engine''\<rparr> db))"

definition escalate_case ::
  "clock \<Rightarrow> int \<Rightarrow> string option \<Rightarrow> nat \<Rightarrow> database
     \<Rightarrow> (error + action_result) \<times> nat \<times> database" where
  "escalate_case clk customer_id assigned_to n db =
     (Inr Case_escalated, n + 1,
      add_activity
        \<lparr>ca_customer_id = Some customer_id,
         ca_invoice_id = None, ca_activity_date = date_of (clk n),
         ca_activity_type = ''ESCALATION'', ca_activity_result = ''ESCALATED'',
         ca_next_action = None, ca_next_action_date = None,
         ca_assigned_to = Some (str_or assigned_to ''Collection Supervisor''),
         ca_performed_by = ''Workflow Engine''\<rparr> db)"

text \<open>
  \<open>_execute_action\<close>: the customer row is fetched first (\<open>None\<close> when the customer does
  not exist), then the action is chosen in the order of the source's \<open>if\<close> chain.
\<close>

definition execute_action ::
  "clock \<Rightarrow> action_type \<Rightarrow> int \<Rightarrow> int option \<Rightarrow> string option \<Rightarrow> string option \<Rightarrow> nat
     \<Rightarrow> database \<Rightarrow> (error + action_result) \<times> nat \<times> database" where
  "execute_action clk action customer_id invoice_id template_id assigned_to n db =
     (let customer_data = List.find (\<lambda>c. c_customer_id c = customer_id) (customers db)
      in if action = EMAIL_REMINDER then send_email_reminder clk customer_data invoice_id n db
         else if action = PHONE_CALL then schedule_phone_call clk customer_data assigned_to n db
         else if action = DUNNING_LETTER then generate_dunning_letter clk customer_data invoice_id n db
         else if action = CREDIT_HOLD then apply_credit_hold clk customer_id n db
         else if action = LEGAL_REFERRAL then create_legal_referral clk customer_data invoice_id n db
         else if action = ESCALATION then escalate_case clk customer_id assigned_to n db
         else (Inr Not_implemented, n, db))"

subsection \<open>execute_pending_workflows\<close>

definition update_instance ::
  "instance_id \<Rightarrow> (workflow_instance \<Rightarrow> workflow_instance) \<Rightarrow> database \<Rightarrow> database" where
  "update_instance instance_id f db =
     db\<lparr>workflow_instances :=
          map (\<lambda>r. if wi_instance_id r = instance_id then f r else r) (workflow_instances db)\<rparr>"

definition mark_instance_completed :: "clock \<Rightarrow> instance_id \<Rightarrow> nat \<Rightarrow> database \<Rightarrow> nat \<times> database" where
  "mark_instance_completed clk instance_id n db =
     (n + 1,
      update_instance instance_id
        (\<lambda>r. r\<lparr>wi_status := COMPLETED, wi_completed_date := Some (clk n)\<rparr>) db)"

definition mark_instance_failed :: "instance_id \<Rightarrow> error \<Rightarrow> database \<Rightarrow> database" where
  "mark_instance_failed instance_id error_message db =
     update_instance instance_id
       (\<lambda>r. r\<lparr>wi_status := FAILED, wi_failure_reason := Some error_message\<rparr>) db"

text \<open>\<open>SELECT MAX(step_order) FROM workflow_steps WHERE workflow_id = ?\<close> (NULL without rows).\<close>

definition max_step_order :: "int \<Rightarrow> database \<Rightarrow> int option" where
  "max_step_order workflow_id db =
     (case map ws_step_order (filter (\<lambda>s. ws_workflow_id s = workflow_id) (workflow_steps db)) of
        [] \<Rightarrow> None
      | x # xs \<Rightarrow> Some (fold max xs x))"

datatype instance_result =
  All_steps_executed                      \<comment> \<open>\<open>{'status': 'completed'}\<close>\<close>
| Action_executed action_type timestamp   \<comment> \<open>\<open>{'status': 'success'}\<close>, action and next_scheduled\<close>

text \<open>
  The two queries of \<open>_execute_workflow_instance\<close>: the instance joined with its workflow,
  and the active step whose order is the current step plus one.
\<close>

definition instance_data :: "database \<Rightarrow> instance_id \<Rightarrow> (workflow_instance \<times> workflow) list" where
  "instance_data db instance_id =
     [(wi, cw). wi \<leftarrow> workflow_instances db, cw \<leftarrow> collection_workflows db,
        wi_workflow_id wi = cw_workflow_id cw \<and> wi_instance_id wi = instance_id]"

definition step_query :: "workflow_instance \<Rightarrow> workflow_step \<Rightarrow> bool" where
  "step_query wi s \<longleftrightarrow>
     ws_workflow_id s = wi_workflow_id wi \<and> ws_step_order s = wi_current_step wi + 1 \<and>
     ws_is_active s"

definition execute_workflow_instance ::
  "clock \<Rightarrow> instance_id \<Rightarrow> nat \<Rightarrow> database \<Rightarrow> (error + instance_result) \<times> nat \<times> database" where
  "execute_workflow_instance clk instance_id n db =
     (case instance_data db instance_id of
        [] \<Rightarrow> (Inl ValueError, n, db)
      | (wi, cw) # _ \<Rightarrow>
          (let workflow_id = wi_workflow_id wi;
               current_step = wi_current_step wi
           in case List.find (step_query wi) (workflow_steps db) of
                None \<Rightarrow>
                  (case mark_instance_completed clk instance_id n db of
                     (n', db') \<Rightarrow> (Inr All_steps_executed, n', db'))
              | Some step \<Rightarrow>
                  (case execute_action clk (ws_action_type step) (wi_customer_id wi)
                          (wi_invoice_id wi) (ws_template_id step) (ws_assigned_to step) n db of
                     (Inl e, n', db') \<Rightarrow> (Inl e, n', db')
                   | (Inr execution_result, n', db') \<Rightarrow>
                       (let db1 = db'\<lparr>workflow_execution_log := workflow_execution_log db' @
                                    [\<lparr>wl_instance_id = instance_id, wl_step_id = ws_step_id step,
                                      wl_status = ''SUCCESS''\<rparr>]\<rparr>;
                            next_step = current_step + 1;
                            next_scheduled =
                              (if ws_delay_days step \<noteq> 0
                               then clk n' + timedelta_days (ws_delay_days step) else clk n');
                            last_action = clk (n' + 1)
                        in (Inr (Action_executed (ws_action_type step) next_scheduled), n' + 2,
                            update_instance instance_id
                              (\<lambda>r. r\<lparr>wi_current_step := next_step,
                                      wi_scheduled_date := next_scheduled,
                                      wi_last_action_date := Some last_action,
                                      wi_status :=
                                        (if Some next_step = max_step_order workflow_id db1
                                         then COMPLETED else ACTIVE)\<rparr>) db1)))))"

record execution_results =
  executed :: nat
  failed :: nat
  skipped :: nat
  instances :: "(instance_id \<times> (error + instance_result)) list"

text \<open>The loop over the fetched instance ids, with the \<open>try\<close>/\<open>except\<close> around each one.\<close>

fun execute_loop ::
  "clock \<Rightarrow> instance_id list \<Rightarrow> execution_results \<Rightarrow> nat \<Rightarrow> database
     \<Rightarrow> execution_results \<times> nat \<times> database" where
  "execute_loop clk [] res n db = (res, n, db)"
| "execute_loop clk (instance_id # rest) res n db =
     (case execute_workflow_instance clk instance_id n db of
        (Inr result, n', db') \<Rightarrow>
          execute_loop clk rest
            (res\<lparr>instances := instances res @ [(instance_id, Inr result)],
                 executed := executed res + 1\<rparr>) n' db'
      | (Inl e, n', db') \<Rightarrow>
          execute_loop clk rest
            (res\<lparr>instances := instances res @ [(instance_id, Inl e)],
                 failed := failed res + 1\<rparr>) n' (mark_instance_failed instance_id e db'))"

text \<open>
  The selection: \<open>WHERE status = 'PENDING' AND scheduled_date <= now ORDER BY scheduled_date\<close>;
  rows with equal dates are taken in table order.
\<close>

definition pending_instances :: "timestamp \<Rightarrow> database \<Rightarrow> workflow_instance list" where
  "pending_instances now db =
     sort_key wi_scheduled_date
       (filter (\<lambda>r. wi_status r = PENDING \<and> wi_scheduled_date r \<le> now) (workflow_instances db))"

definition execute_pending_workflows ::
  "clock \<Rightarrow> nat \<Rightarrow> database \<Rightarrow> execution_results \<times> nat \<times> database" where
  "execute_pending_workflows clk n db =
     execute_loop clk (map wi_instance_id (pending_instances (clk n) db))
       \<lparr>executed = 0, failed = 0, skipped = 0, instances = []\<rparr> (n + 1) db"

text \<open>Several runs of \<open>execute_pending_workflows\<close> one after the other.\<close>

fun execute_runs :: "clock \<Rightarrow> nat \<Rightarrow> nat \<Rightarrow> database \<Rightarrow> nat \<times> database" where
  "execute_runs clk 0 n db = (n, db)"
| "execute_runs clk (Suc k) n db =
     (case execute_pending_workflows clk n db of (res, n', db') \<Rightarrow> execute_runs clk k n' db')"

section \<open>Payment promises (ar_promise_tracker.py)\<close>

text \<open>
  A date passed in as a string: \<open>Good_date d\<close> when \<open>strptime(..., "%Y-%m-%d")\<close> accepts it
  and yields day \<open>d\<close>, \<open>Bad_date\<close> when it raises ValueError.
\<close>

datatype date_string = Bad_date | Good_date date

datatype promise_error =
  Amount_not_positive             \<comment> \<open>"Promised amount must be positive"\<close>
| Invalid_date_format             \<comment> \<open>"Invalid date format. Use YYYY-MM-DD"\<close>
| Date_not_in_future              \<comment> \<open>"Promise date must be in the future"\<close>
| Customer_not_found              \<comment> \<open>"Customer not found"\<close>
| Invoice_not_found_or_paid       \<comment> \<open>"Invoice not found or already paid"\<close>
| Exceeds_outstanding real        \<comment> \<open>"Promised amount exceeds outstanding balance of ..."\<close>
| Promise_not_found               \<comment> \<open>"Payment promise not found"\<close>
| Invalid_payment_date_format     \<comment> \<open>"Invalid payment date format. Use YYYY-MM-DD"\<close>
| Cannot_update promise_status    \<comment> \<open>"Cannot update promise with status ..."\<close>
| Actual_amount_required          \<comment> \<open>"Actual payment amount required for KEPT/PARTIALLY_KEPT status"\<close>

text \<open>The tolerance settings of the tracker.\<close>

definition grace_period_days :: int where "grace_period_days = 2"
definition escalation_threshold :: nat where "escalation_threshold = 3"
definition follow_up_lead_time :: int where "follow_up_lead_time = 1"

text \<open>
  \<open>cursor.lastrowid\<close> after the insert. The table definition is not part of the sources;
  the id is taken to be SQLite's default for an integer primary key, one more than the
  largest id in the table.
\<close>

definition next_promise_id :: "database \<Rightarrow> int" where
  "next_promise_id db =
     (case map pp_promise_id (payment_promises db) of [] \<Rightarrow> 1 | x # xs \<Rightarrow> fold max xs x + 1)"

definition update_invoice_collection ::
  "int \<Rightarrow> string \<Rightarrow> date option \<Rightarrow> database \<Rightarrow> database" where
  "update_invoice_collection invoice_id collection_status next_action_date db =
     db\<lparr>invoices :=
          map (\<lambda>i. if i_invoice_id i = invoice_id
                    then i\<lparr>i_collection_status := Some collection_status,
                           i_next_collection_action_date := next_action_date\<rparr>
                    else i) (invoices db)\<rparr>"

definition create_follow_up_activity ::
  "clock \<Rightarrow> int \<Rightarrow> int option \<Rightarrow> date \<Rightarrow> nat \<Rightarrow> database \<Rightarrow> nat \<times> database" where
  "create_follow_up_activity clk customer_id invoice_id follow_up_date n db =
     (n + 1,
      add_activity
        \<lparr>ca_customer_id = Some customer_id, ca_invoice_id = invoice_id,
         ca_activity_date = date_of (clk n),
         ca_activity_type = ''PROMISE_FOLLOW_UP'', ca_activity_result = ''SCHEDULED'',
         ca_next_action = Some ''VERIFY_PROMISE'', ca_next_action_date = Some follow_up_date,
         ca_assigned_to = Some ''Collection Agent'', ca_performed_by = ''System''\<rparr> db)"

record create_result =
  cr_promise_id :: int
  cr_promised_amount :: real
  cr_promised_date :: date
  cr_follow_up_date :: date

text \<open>
  The invoice check of \<open>create_payment_promise\<close>, made only when \<open>invoice_id\<close> is truthy:
  the invoice must belong to the customer and have a positive outstanding amount, and the
  promised amount must not exceed it.
\<close>

definition validate_invoice :: "int \<Rightarrow> real \<Rightarrow> int option \<Rightarrow> database \<Rightarrow> promise_error option" where
  "validate_invoice customer_id promised_amount invoice_id db =
     (if truthy_int invoice_id
      then (case List.find (\<lambda>i. Some (i_invoice_id i) = invoice_id \<and>
                                 i_customer_id i = customer_id \<and>
                                 i_outstanding_amount i > 0) (invoices db) of
              None \<Rightarrow> Some Invoice_not_found_or_paid
            | Some i \<Rightarrow>
                (if promised_amount > i_outstanding_amount i
                 then Some (Exceeds_outstanding (i_outstanding_amount i))
                 else None))
      else None)"

text \<open>The writes of \<open>create_payment_promise\<close> once every check has passed.\<close>

definition store_promise ::
  "clock \<Rightarrow> int \<Rightarrow> real \<Rightarrow> date \<Rightarrow> int option \<Rightarrow> nat \<Rightarrow> database
     \<Rightarrow> (promise_error + create_result) \<times> nat \<times> database" where
  "store_promise clk customer_id promised_amount promise_date invoice_id n db =
     (let follow_up_date = promise_date - follow_up_lead_time;
          promise_id = next_promise_id db;
          db1 = db\<lparr>payment_promises := payment_promises db @
                  [\<lparr>pp_promise_id = promise_id, pp_customer_id = customer_id,
                    pp_invoice_id = invoice_id,
                    pp_promise_date = date_of (clk n),
                    pp_promised_amount = promised_amount,
                    pp_promised_payment_date = promise_date,
                    pp_status = P_ACTIVE,
                    pp_actual_payment_date = None,
                    pp_actual_payment_amount = None,
                    pp_follow_up_date = Some follow_up_date,
                    pp_follow_up_completed = False,
                    pp_escalation_required = False\<rparr>]\<rparr>
      in (case create_follow_up_activity clk customer_id invoice_id follow_up_date (n + 1) db1 of
            (n', db2) \<Rightarrow>
              (Inr \<lparr>cr_promise_id = promise_id,
                    cr_promised_amount = promised_amount,
                    cr_promised_date = promise_date,
                    cr_follow_up_date = follow_up_date\<rparr>,
               n',
               (case invoice_id of
                  None \<Rightarrow> db2
                | Some iid \<Rightarrow>
                    (if iid \<noteq> 0
                     then update_invoice_collection iid ''PROMISE_RECEIVED'' (Some follow_up_date) db2
                     else db2)))))"

definition create_payment_promise ::
  "clock \<Rightarrow> int \<Rightarrow> real \<Rightarrow> date_string \<Rightarrow> int option \<Rightarrow> nat \<Rightarrow> database
     \<Rightarrow> (promise_error + create_result) \<times> nat \<times> database" where
  "create_payment_promise clk customer_id promised_amount promised_payment_date invoice_id n db =
     (if promised_amount \<le> 0 then (Inl Amount_not_positive, n, db)
      else (case promised_payment_date of
        Bad_date \<Rightarrow> (Inl Invalid_date_format, n, db)
      | Good_date promise_date \<Rightarrow>
          (if promise_date \<le> date_of (clk n) then (Inl Date_not_in_future, n + 1, db)
           else (case List.find (\<lambda>c. c_customer_id c = customer_id) (customers db) of
             None \<Rightarrow> (Inl Customer_not_found, n + 1, db)
           | Some customer_result \<Rightarrow>
               (case validate_invoice customer_id promised_amount invoice_id db of
                  Some e \<Rightarrow> (Inl e, n + 1, db)
                | None \<Rightarrow>
                    store_promise clk customer_id promised_amount promise_date invoice_id
                      (n + 1) db)))))"

definition create_promise_activity ::
  "clock \<Rightarrow> int \<Rightarrow> int option \<Rightarrow> promise_status \<Rightarrow> bool \<Rightarrow> nat \<Rightarrow> database \<Rightarrow> nat \<times> database" where
  "create_promise_activity clk customer_id invoice_id status escalation_required n db =
     (n + 1,
      add_activity
        \<lparr>ca_customer_id = Some customer_id, ca_invoice_id = invoice_id,
         ca_activity_date = date_of (clk n),
         ca_activity_type = ''PROMISE_UPDATE'',
         ca_activity_result =
           (if status = KEPT then ''PROMISE_KEPT''
            else if status = BROKEN then ''PROMISE_BROKEN''
            else if status = PARTIALLY_KEPT then ''PARTIAL_PAYMENT''
            else ''PROMISE_CANCELLED''),
         ca_next_action = Some (if escalation_required then ''ESCALATE'' else ''FOLLOW_UP''),
         ca_next_action_date = None,
         ca_assigned_to = Some ''Collection Agent'', ca_performed_by = ''System''\<rparr> db)"

record update_result =
  ur_promise_id :: int
  ur_old_status :: promise_status
  ur_new_status :: promise_status
  ur_escalation_required :: bool

text \<open>
  The count of the customer's BROKEN promises made in the last 90 days
  (\<open>promise_date >= date('now', '-90 days')\<close>).
\<close>

definition broken_count :: "date \<Rightarrow> int \<Rightarrow> database \<Rightarrow> nat" where
  "broken_count today customer_id db =
     length (filter (\<lambda>p. pp_customer_id p = customer_id \<and> pp_status p = BROKEN \<and>
                          pp_promise_date p \<ge> today - 90) (payment_promises db))"

definition update_promise_status ::
  "float_arith \<Rightarrow> clock \<Rightarrow> int \<Rightarrow> promise_status \<Rightarrow> real \<Rightarrow> date_string option \<Rightarrow> nat
     \<Rightarrow> database \<Rightarrow> (promise_error + update_result) \<times> nat \<times> database" where
  "update_promise_status fa clk promise_id new_status actual_payment_amount actual_payment_date
     n db =
     (case List.find (\<lambda>p. pp_promise_id p = promise_id) (payment_promises db) of
        None \<Rightarrow> (Inl Promise_not_found, n, db)
      | Some result \<Rightarrow>
          (let customer_id = pp_customer_id result;
               invoice_id = pp_invoice_id result;
               promised_amount = pp_promised_amount result;
               current_status = pp_status result
           in if actual_payment_date = Some Bad_date then (Inl Invalid_payment_date_format, n, db)
              else
              (let payment_date =
                     (case actual_payment_date of Some (Good_date d) \<Rightarrow> Some d | _ \<Rightarrow> None)
               in if current_status = KEPT \<or> current_status = BROKEN \<or> current_status = P_CANCELLED
                  then (Inl (Cannot_update current_status), n, db)
                  else if (new_status = KEPT \<or> new_status = PARTIALLY_KEPT) \<and>
                          actual_payment_amount \<le> 0
                  then (Inl Actual_amount_required, n, db)
                  else
                  (let new_status' =
                         (if new_status = KEPT \<and>
                             \<bar>fa_sub fa actual_payment_amount promised_amount\<bar> >
                               fa_mul fa promised_amount py_0_01 \<and>
                             actual_payment_amount < fa_mul fa promised_amount py_0_9
                          then PARTIALLY_KEPT else new_status);
                       escalation_required =
                         (new_status' = BROKEN \<and>
                          broken_count (date_of (clk n)) customer_id db \<ge> escalation_threshold - 1);
                       n1 = (if new_status' = BROKEN then n + 1 else n);
                       db1 = db\<lparr>payment_promises :=
                               map (\<lambda>p. if pp_promise_id p = promise_id
                                         then p\<lparr>pp_status := new_status',
                                                pp_actual_payment_date := payment_date,
                                                pp_actual_payment_amount := Some actual_payment_amount,
                                                pp_escalation_required := escalation_required,
                                                pp_follow_up_completed := True\<rparr>
                                         else p) (payment_promises db)\<rparr>;
                       today = date_of (clk n1);
                       timed = (truthy_int invoice_id \<and>
                                (new_status' = KEPT \<or> new_status' = BROKEN \<or> new_status' = PARTIALLY_KEPT));
                       n2 = (if timed then n1 + 1 else n1);
                       db2 = (case invoice_id of
                                None \<Rightarrow> db1
                              | Some iid \<Rightarrow>
                                  (if \<not> timed then db1
                                   else if new_status' = KEPT
                                   then update_invoice_collection iid
                                          ''PAYMENT_RECEIVED'' (Some (today + 30)) db1
                                   else if new_status' = BROKEN
                                   then update_invoice_collection iid
                                          ''BROKEN_PROMISE'' (Some (today + 1)) db1
                                   else update_invoice_collection iid
                                          ''PARTIAL_PAYMENT'' (Some (today + 7)) db1))
                   in case create_promise_activity clk customer_id invoice_id new_status'
                             escalation_required n2 db2 of
                        (n3, db3) \<Rightarrow>
                          (Inr \<lparr>ur_promise_id = promise_id, ur_old_status = current_status,
                                ur_new_status = new_status',
                                ur_escalation_required = escalation_required\<rparr>, n3, db3)))))"

text \<open>
  \<open>SELECT SUM(pa.applied_amount) ... WHERE pa.invoice_id = ? AND p.payment_date >= ? AND
  p.payment_date <= date(?, '+5 days')\<close>: NULL (\<open>None\<close>) when no row qualifies.
\<close>

definition payments_applied :: "float_arith \<Rightarrow> database \<Rightarrow> int \<Rightarrow> date \<Rightarrow> real option" where
  "payments_applied fa db invoice_id promised_date =
     (case [pa_applied_amount pa. pa \<leftarrow> payment_applications db, p \<leftarrow> payments db,
              pa_payment_id pa = p_payment_id p \<and> pa_invoice_id pa = invoice_id \<and>
              p_payment_date p \<ge> promised_date \<and> p_payment_date p \<le> promised_date + 5] of
        [] \<Rightarrow> None
      | xs \<Rightarrow> Some (fa_sum fa xs))"

text \<open>
  The payment query of the loop body, made only when the promise's invoice id is truthy
  (\<open>if invoice_id:\<close>): \<open>None\<close> without a linked invoice or without a payment in the window.
\<close>

definition linked_payments :: "float_arith \<Rightarrow> database \<Rightarrow> payment_promise \<Rightarrow> real option" where
  "linked_payments fa db row =
     (case pp_invoice_id row of
        None \<Rightarrow> None
      | Some iid \<Rightarrow>
          (if iid \<noteq> 0 then payments_applied fa db iid (pp_promised_payment_date row) else None))"

record overdue_summary =
  total_overdue :: nat
  processed_count :: nat
  escalated_count :: nat
  results :: "(int \<times> int \<times> promise_status \<times> bool) list"

text \<open>One pass of the loop body of \<open>process_overdue_promises\<close> for one fetched row.\<close>

definition process_promise ::
  "float_arith \<Rightarrow> clock \<Rightarrow> payment_promise \<Rightarrow> overdue_summary \<Rightarrow> nat \<Rightarrow> database
     \<Rightarrow> overdue_summary \<times> nat \<times> database" where
  "process_promise fa clk row summary n db =
     (let promise_id = pp_promise_id row;
          invoice_id = pp_invoice_id row;
          promised_amount = pp_promised_amount row;
          promised_date = pp_promised_payment_date row;
          payment_result = linked_payments fa db row;
          actual_amount = (case payment_result of None \<Rightarrow> 0 | Some s \<Rightarrow> s);
          payment_received =
            (truthy_int invoice_id \<and> payment_result \<noteq> None \<and> actual_amount \<noteq> 0 \<and>
             actual_amount \<ge> fa_mul fa promised_amount py_0_9)
      in case (if payment_received
               then update_promise_status fa clk promise_id
                      (if actual_amount \<ge> fa_mul fa promised_amount py_0_99
                       then KEPT else PARTIALLY_KEPT)
                      actual_amount (Some (Good_date promised_date)) n db
               else update_promise_status fa clk promise_id BROKEN 0 None n db) of
           (Inl e, n', db') \<Rightarrow> (summary, n', db')
         | (Inr r, n', db') \<Rightarrow>
             (summary\<lparr>processed_count := processed_count summary + 1,
                      escalated_count :=
                        (if \<not> payment_received \<and> ur_escalation_required r
                         then escalated_count summary + 1 else escalated_count summary),
                      results := results summary @
                        [(promise_id, pp_customer_id row, ur_new_status r,
                          ur_escalation_required r)]\<rparr>, n', db'))"

fun process_loop ::
  "float_arith \<Rightarrow> clock \<Rightarrow> payment_promise list \<Rightarrow> overdue_summary \<Rightarrow> nat \<Rightarrow> database
     \<Rightarrow> overdue_summary \<times> nat \<times> database" where
  "process_loop fa clk [] summary n db = (summary, n, db)"
| "process_loop fa clk (row # rest) summary n db =
     (case process_promise fa clk row summary n db of
        (summary', n', db') \<Rightarrow> process_loop fa clk rest summary' n' db')"

definition overdue_promises :: "date \<Rightarrow> database \<Rightarrow> payment_promise list" where
  "overdue_promises grace_date db =
     filter (\<lambda>p. pp_status p = P_ACTIVE \<and> pp_promised_payment_date p < grace_date)
       (payment_promises db)"

definition process_overdue_promises ::
  "float_arith \<Rightarrow> clock \<Rightarrow> nat \<Rightarrow> database \<Rightarrow> overdue_summary \<times> nat \<times> database" where
  "process_overdue_promises fa clk n db =
     (let grace_date = date_of (clk n) - grace_period_days;
          overdue = overdue_promises grace_date db
      in process_loop fa clk overdue
           \<lparr>total_overdue = length overdue, processed_count = 0, escalated_count = 0,
            results = []\<rparr> (n + 1) db)"

text \<open>The statuses in which a promise is final.\<close>

definition terminal :: "promise_status \<Rightarrow> bool" where
  "terminal s \<longleftrightarrow> s = KEPT \<or> s = BROKEN \<or> s = P_CANCELLED"

section \<open>Priority scoring (ar_prioritization.py)\<close>

datatype risk_level = LOW | MEDIUM | HIGH

datatype next_action =
  ESCALATE_TO_LEGAL | MANAGER_INTERVENTION | IMMEDIATE_PHONE_CALL | SEND_FORMAL_NOTICE
| STANDARD_FOLLOW_UP

datatype score_error = Score_customer_not_found

text \<open>
  The scoring weights set in the constructor: the floats \<open>0.25\<close>, \<open>0.30\<close>, \<open>0.20\<close>, \<open>0.15\<close>
  and \<open>0.10\<close>.
\<close>

definition amount_weight :: real where
  "amount_weight = 1 / 4"
definition aging_weight :: real where
  "aging_weight = 5404319552844595 / 18014398509481984"
definition customer_history_weight :: real where
  "customer_history_weight = 3602879701896397 / 18014398509481984"
definition relationship_weight :: real where
  "relationship_weight = 5404319552844595 / 36028797018963968"
definition collection_effort_weight :: real where
  "collection_effort_weight = 3602879701896397 / 36028797018963968"

text \<open>The float literals \<open>0.8\<close>, \<open>0.7\<close> and \<open>0.3\<close> of the scoring methods.\<close>

definition py_0_8 :: real where "py_0_8 = 3602879701896397 / 4503599627370496"
definition py_0_7 :: real where "py_0_7 = 3152519739159347 / 4503599627370496"
definition py_0_3 :: real where "py_0_3 = 5404319552844595 / 18014398509481984"

text \<open>
  \<open>WHERE customer_id = ? AND outstanding_amount > 0
  ORDER BY days_past_due DESC, outstanding_amount DESC\<close>.
\<close>

definition get_outstanding_invoices :: "int \<Rightarrow> database \<Rightarrow> invoice list" where
  "get_outstanding_invoices customer_id db =
     sort_key (\<lambda>i. (- i_days_past_due i, - i_outstanding_amount i))
       (filter (\<lambda>i. i_customer_id i = customer_id \<and> i_outstanding_amount i > 0) (invoices db))"

definition calculate_amount_score :: "float_arith \<Rightarrow> invoice list \<Rightarrow> real" where
  "calculate_amount_score fa invs =
     (if invs = [] then 0
      else (let total_outstanding = fa_pysum fa (map i_outstanding_amount invs)
            in if total_outstanding \<le> 1000 then 10
               else if total_outstanding \<le> 5000 then 25
               else if total_outstanding \<le> 25000 then 50
               else if total_outstanding \<le> 100000 then 75
               else 90))"

text \<open>
  The loop of \<open>_calculate_aging_score\<close> with its two accumulators. The days score
  \<open>min(100, days_past_due * 0.8)\<close> has no lower bound.
\<close>

fun aging_loop :: "float_arith \<Rightarrow> invoice list \<Rightarrow> real \<Rightarrow> real \<Rightarrow> real \<times> real" where
  "aging_loop fa [] weighted_aging total_weight = (weighted_aging, total_weight)"
| "aging_loop fa (i # rest) weighted_aging total_weight =
     (let amount_weight = i_outstanding_amount i;
          days_score = min 100 (fa_mul fa (of_int (i_days_past_due i)) py_0_8)
      in aging_loop fa rest (fa_add fa weighted_aging (fa_mul fa days_score amount_weight))
           (fa_add fa total_weight amount_weight))"

definition calculate_aging_score :: "float_arith \<Rightarrow> invoice list \<Rightarrow> real" where
  "calculate_aging_score fa invs =
     (if invs = [] then 0
      else (case aging_loop fa invs 0 0 of
              (weighted_aging, total_weight) \<Rightarrow>
                (if total_weight > 0 then fa_div fa weighted_aging total_weight else 0)))"

definition calculate_payment_history_score ::
  "float_arith \<Rightarrow> clock \<Rightarrow> int \<Rightarrow> nat \<Rightarrow> database \<Rightarrow> real \<times> nat" where
  "calculate_payment_history_score fa clk customer_id n db =
     (case List.find (\<lambda>c. c_customer_id c = customer_id) (customers db) of
        None \<Rightarrow> (50, n)
      | Some c \<Rightarrow>
          (let reliability_score = c_payment_reliability_score c;
               avg_days_to_pay = c_avg_days_to_pay c;
               payment_terms = c_payment_terms_days c;
               history_score =
                 (if avg_days_to_pay \<le> payment_terms
                  then min 100 (fa_add fa reliability_score 10)
                  else if avg_days_to_pay \<le> fa_add fa payment_terms 10
                  then max 0 (fa_sub fa reliability_score 5)
                  else max 0 (fa_sub fa reliability_score
                                (min 50 (fa_mul fa (fa_sub fa avg_days_to_pay payment_terms) 2))));
               recent = filter (\<lambda>p. pp_customer_id p = customer_id \<and>
                                     pp_promise_date p \<ge> date_of (clk n) - 90)
                          (payment_promises db);
               total_promises = length recent;
               kept_promises = length (filter (\<lambda>p. pp_status p = KEPT) recent)
           in (if total_promises > 0
               then (let promise_rate = fa_div fa (real kept_promises) (real total_promises)
                     in if promise_rate < 1 / 2 then max 0 (fa_sub fa history_score 20)
                        else if promise_rate > py_0_8 then min 100 (fa_add fa history_score 5)
                        else history_score)
               else history_score, n + 1)))"

text \<open>
  The base score of \<open>_calculate_relationship_score\<close> is a Python integer throughout, so its
  arithmetic is exact.
\<close>

definition calculate_relationship_score ::
  "float_arith \<Rightarrow> clock \<Rightarrow> customer \<Rightarrow> nat \<Rightarrow> database \<Rightarrow> real \<times> nat" where
  "calculate_relationship_score fa clk customer_info n db =
     (let base0 = (50::real);
          customer_type = c_customer_type customer_info;
          base1 = (if customer_type = Some ''VIP'' then base0 - 20
                   else if customer_type = Some ''HIGH_RISK'' then base0 + 30
                   else if customer_type = Some ''NEW'' then base0 + 10 else base0);
          lifetime_sales = c_total_sales_lifetime customer_info;
          base2 = (if lifetime_sales \<ge> 100000 then base1 - 15
                   else if lifetime_sales \<ge> 25000 then base1 - 5
                   else if lifetime_sales < 5000 then base1 + 10 else base1);
          credit_limit = c_credit_limit customer_info;
          outstanding =
            map i_outstanding_amount
              (filter (\<lambda>i. i_customer_id i = c_customer_id customer_info \<and>
                            i_outstanding_amount i > 0) (invoices db));
          base3 = (if credit_limit > 0 \<and> outstanding \<noteq> [] \<and> fa_sum fa outstanding \<noteq> 0
                   then (let utilization = fa_div fa (fa_sum fa outstanding) credit_limit
                         in if utilization > 1 then base2 + 25
                            else if utilization > py_0_8 then base2 + 15
                            else if utilization > 1 / 2 then base2 + 5 else base2)
                   else base2)
      in case c_customer_since customer_info of
           None \<Rightarrow> (max 0 (min 100 base3), n)
         | Some since_date \<Rightarrow>
             (let relationship_years =
                    fa_div fa (of_int (date_of (clk n) - since_date)) (1461 / 4)
              in (max 0 (min 100
                    (if relationship_years > 5 then base3 - 10
                     else if relationship_years < 1 then base3 + 5 else base3)), n + 1)))"

text \<open>The effort score is a Python integer throughout as well.\<close>

definition calculate_collection_effort_score ::
  "float_arith \<Rightarrow> clock \<Rightarrow> int \<Rightarrow> nat \<Rightarrow> database \<Rightarrow> real \<times> nat" where
  "calculate_collection_effort_score fa clk customer_id n db =
     (let recent = filter (\<lambda>a. ca_customer_id a = Some customer_id \<and>
                                ca_activity_date a \<ge> date_of (clk n) - 60)
                     (collection_activities db);
          total_activities = length recent
      in if total_activities = 0 then (50, n + 1)
         else
         (let no_answer = length (filter (\<lambda>a. ca_activity_result a = ''NO_ANSWER'') recent);
              promises = length (filter (\<lambda>a. ca_activity_result a = ''PROMISE_MADE'') recent);
              disputes = length (filter (\<lambda>a. ca_activity_result a = ''DISPUTE_RAISED'') recent);
              last_activity = fold max (map ca_activity_date recent) (ca_activity_date (hd recent));
              no_answer_rate = fa_div fa (real no_answer) (real total_activities);
              e1 = (if no_answer_rate > py_0_7 then (50::real) + 20
                    else if no_answer_rate < py_0_3 then 50 - 5 else 50);
              e2 = (if promises > 0 then e1 + 10 else e1);
              e3 = (if disputes > 0 then e2 + 15 else e2);
              days_since_contact = date_of (clk (n + 1)) - last_activity;
              e4 = (if days_since_contact > 14 then e3 + 10
                    else if days_since_contact < 3 then e3 - 5 else e3)
          in (max 0 (min 100 e4), n + 2)))"

definition determine_risk_level :: "real \<Rightarrow> risk_level" where
  "determine_risk_level score =
     (if score \<ge> 75 then HIGH else if score \<ge> 50 then MEDIUM else LOW)"

definition determine_next_action :: "real \<Rightarrow> int \<Rightarrow> next_action" where
  "determine_next_action score oldest_days =
     (if score > 80 \<or> oldest_days > 120 then ESCALATE_TO_LEGAL
      else if score > 70 \<or> oldest_days > 90 then MANAGER_INTERVENTION
      else if score > 60 \<or> oldest_days > 60 then IMMEDIATE_PHONE_CALL
      else if score > 40 \<or> oldest_days > 30 then SEND_FORMAL_NOTICE
      else STANDARD_FOLLOW_UP)"

record component_scores =
  amount_score :: real
  aging_score :: real
  history_score :: real
  relationship_score :: real
  effort_score :: real

record score_details =
  sd_invoice_count :: nat
  sd_oldest_invoice_days :: int
  sd_component_scores :: component_scores
  sd_next_action :: next_action

record score_result =
  sr_customer_id :: int
  sr_priority_score :: real
  sr_risk_level :: risk_level
  sr_total_outstanding :: real
  sr_details :: "score_details option"

text \<open>The five component scores, in the order the source computes them.\<close>

definition compute_components ::
  "float_arith \<Rightarrow> clock \<Rightarrow> int \<Rightarrow> customer \<Rightarrow> invoice list \<Rightarrow> nat \<Rightarrow> database
     \<Rightarrow> component_scores \<times> nat" where
  "compute_components fa clk customer_id customer_info outstanding_invoices n db =
     (case calculate_payment_history_score fa clk customer_id n db of
        (history, n1) \<Rightarrow>
          (case calculate_relationship_score fa clk customer_info n1 db of
             (relationship, n2) \<Rightarrow>
               (case calculate_collection_effort_score fa clk customer_id n2 db of
                  (effort, n3) \<Rightarrow>
                    (\<lparr>amount_score = calculate_amount_score fa outstanding_invoices,
                      aging_score = calculate_aging_score fa outstanding_invoices,
                      history_score = history,
                      relationship_score = relationship,
                      effort_score = effort\<rparr>, n3))))"

text \<open>
  The weighted final score, before it is rounded for the result: five float products added
  from left to right. Nothing bounds the sum from below or from above.
\<close>

definition final_score :: "float_arith \<Rightarrow> component_scores \<Rightarrow> real" where
  "final_score fa cs =
     fa_add fa
       (fa_add fa
          (fa_add fa
             (fa_add fa (fa_mul fa (amount_score cs) amount_weight)
                        (fa_mul fa (aging_score cs) aging_weight))
             (fa_mul fa (history_score cs) customer_history_weight))
          (fa_mul fa (relationship_score cs) relationship_weight))
       (fa_mul fa (effort_score cs) collection_effort_weight)"

definition calculate_customer_priority_score ::
  "float_arith \<Rightarrow> clock \<Rightarrow> int \<Rightarrow> nat \<Rightarrow> database \<Rightarrow> (score_error + score_result) \<times> nat" where
  "calculate_customer_priority_score fa clk customer_id n db =
     (case List.find (\<lambda>c. c_customer_id c = customer_id) (customers db) of
        None \<Rightarrow> (Inl Score_customer_not_found, n)
      | Some customer_info \<Rightarrow>
          (let outstanding_invoices = get_outstanding_invoices customer_id db
           in case outstanding_invoices of
                [] \<Rightarrow>
                  (Inr \<lparr>sr_customer_id = customer_id, sr_priority_score = 0,
                        sr_risk_level = LOW, sr_total_outstanding = 0, sr_details = None\<rparr>, n)
              | first # others \<Rightarrow>
                  (case compute_components fa clk customer_id customer_info outstanding_invoices
                          n db of
                     (cs, n') \<Rightarrow>
                       (let score = final_score fa cs;
                            oldest_invoice_days =
                              fold max (map i_days_past_due others) (i_days_past_due first)
                        in (Inr \<lparr>sr_customer_id = customer_id,
                                 sr_priority_score = fa_round2 fa score,
                                 sr_risk_level = determine_risk_level score,
                                 sr_total_outstanding =
                                   fa_pysum fa (map i_outstanding_amount outstanding_invoices),
                                 sr_details = Some
                                   \<lparr>sd_invoice_count = length outstanding_invoices,
                                    sd_oldest_invoice_days = oldest_invoice_days,
                                    sd_component_scores =
                                      \<lparr>amount_score = fa_round2 fa (amount_score cs),
                                       aging_score = fa_round2 fa (aging_score cs),
                                       history_score = fa_round2 fa (history_score cs),
                                       relationship_score = fa_round2 fa (relationship_score cs),
                                       effort_score = fa_round2 fa (effort_score cs)\<rparr>,
                                    sd_next_action =
                                      determine_next_action score oldest_invoice_days\<rparr>\<rparr>, n')))))"

section \<open>Concrete databases\<close>

text \<open>
  Small databases on which the operations are run. The clock \<open>clock0\<close> shows the same
  instant at every reading.
\<close>

definition clock0 :: clock where
  "clock0 = (\<lambda>k. 1700000000000000)"

definition acme :: customer where
  "acme = \<lparr>c_customer_id = 1, c_customer_name = ''Acme'', c_customer_type = Some ''REGULAR'',
     c_is_credit_hold = False, c_credit_limit = 0, c_payment_terms_days = 30,
     c_avg_days_to_pay = 45, c_payment_reliability_score = 50, c_total_sales_lifetime = 10000,
     c_customer_since = None\<rparr>"

definition invoice_45 :: invoice where
  "invoice_45 = \<lparr>i_invoice_id = 10, i_customer_id = 1, i_outstanding_amount = 5000,
     i_days_past_due = 45, i_status = OPEN, i_collection_status = None,
     i_next_collection_action_date = None\<rparr>"

text \<open>The first two workflows of \<open>setup_default_workflows\<close> and a workflow with one step.\<close>

definition early_workflow :: workflow where
  "early_workflow = \<lparr>cw_workflow_id = 1, cw_workflow_name = ''Early Reminder Workflow'',
     cw_days_past_due_trigger = 1, cw_amount_threshold = 100, cw_customer_type_filter = None,
     cw_is_active = True, cw_execution_order = Some 1\<rparr>"

definition standard_workflow :: workflow where
  "standard_workflow = \<lparr>cw_workflow_id = 2, cw_workflow_name = ''Standard Collection Workflow'',
     cw_days_past_due_trigger = 31, cw_amount_threshold = 500, cw_customer_type_filter = None,
     cw_is_active = True, cw_execution_order = Some 2\<rparr>"

definition hold_workflow :: workflow where
  "hold_workflow = \<lparr>cw_workflow_id = 3, cw_workflow_name = ''Credit Hold Workflow'',
     cw_days_past_due_trigger = 61, cw_amount_threshold = 1000, cw_customer_type_filter = None,
     cw_is_active = True, cw_execution_order = Some 3\<rparr>"

definition mk_step :: "int \<Rightarrow> int \<Rightarrow> int \<Rightarrow> action_type \<Rightarrow> int \<Rightarrow> workflow_step" where
  "mk_step sid wid ord a delay = \<lparr>ws_step_id = sid, ws_workflow_id = wid, ws_step_order = ord,
     ws_action_type = a, ws_template_id = None, ws_assigned_to = None, ws_delay_days = delay,
     ws_is_active = True\<rparr>"

definition example_steps :: "workflow_step list" where
  "example_steps =
     [mk_step 1 1 1 EMAIL_REMINDER 0, mk_step 2 1 2 PHONE_CALL 7, mk_step 3 1 3 EMAIL_REMINDER 14,
      mk_step 4 2 1 PHONE_CALL 0, mk_step 5 2 2 DUNNING_LETTER 7, mk_step 6 2 3 PHONE_CALL 14,
      mk_step 7 3 1 CREDIT_HOLD 3]"

text \<open>
  \<open>scan_db\<close>: one customer with one open invoice, 45 days past due with 5000 outstanding,
  and no workflow instance yet. The invoice satisfies the triggers of the first two
  workflows.
\<close>

definition scan_db :: database where
  "scan_db = \<lparr>customers = [acme], invoices = [invoice_45],
     collection_workflows = [early_workflow, standard_workflow, hold_workflow],
     workflow_steps = example_steps,
     workflow_instances = [], workflow_execution_log = [], collection_activities = [],
     credit_history = [], payment_promises = [], payments = [], payment_applications = []\<rparr>"

definition scan_db_after :: database where
  "scan_db_after = snd (snd (trigger_workflows clock0 0 scan_db))"

text \<open>
  \<open>scan_db2\<close>: \<open>scan_db\<close> with a second open invoice of the same customer, 40 days past due
  with 2000 outstanding. The clock \<open>clock_quarter\<close> advances by a quarter of a second with
  every reading.
\<close>

definition invoice_40 :: invoice where
  "invoice_40 = \<lparr>i_invoice_id = 11, i_customer_id = 1, i_outstanding_amount = 2000,
     i_days_past_due = 40, i_status = OPEN, i_collection_status = None,
     i_next_collection_action_date = None\<rparr>"

definition scan_db2 :: database where
  "scan_db2 = scan_db\<lparr>invoices := [invoice_45, invoice_40]\<rparr>"

definition clock_quarter :: clock where
  "clock_quarter = (\<lambda>k. 1700000000000000 + int k * 250000)"

definition scan_db2_first :: database where
  "scan_db2_first = snd (snd (trigger_workflows clock_quarter 0 scan_db2))"

definition scan_db2_second :: database where
  "scan_db2_second = snd (snd (trigger_workflows clock_quarter 5 scan_db2_first))"

definition mk_instance ::
  "instance_id \<Rightarrow> int \<Rightarrow> int \<Rightarrow> int \<Rightarrow> workflow_status \<Rightarrow> int \<Rightarrow> timestamp \<Rightarrow> workflow_instance" where
  "mk_instance iid wid cid ivo st cur sched =
     \<lparr>wi_instance_id = iid, wi_workflow_id = wid, wi_customer_id = cid, wi_invoice_id = Some ivo,
      wi_status = st, wi_current_step = cur, wi_scheduled_date = sched, wi_created_date = sched,
      wi_completed_date = None, wi_last_action_date = None, wi_failure_reason = None,
      wi_retry_count = 0\<rparr>"

text \<open>
  \<open>exec_db\<close>: four instances. Row 0 is PENDING at the first of the three steps of workflow
  1; row 1 is PENDING at the only step of workflow 3; row 2 is PENDING for customer 2, who
  is not in the customers table; row 3 is ACTIVE after the first step of workflow 2. All
  four are scheduled before the instant of \<open>clock0\<close>.
\<close>

definition exec_db :: database where
  "exec_db = \<lparr>customers = [acme], invoices = [invoice_45],
     collection_workflows = [early_workflow, standard_workflow, hold_workflow],
     workflow_steps = example_steps,
     workflow_instances =
       [mk_instance (WF 1 1 1699990001) 1 1 10 PENDING 0 1699990001000000,
        mk_instance (WF 3 1 1699990002) 3 1 11 PENDING 0 1699990002000000,
        mk_instance (WF 1 2 1699990003) 1 2 12 PENDING 0 1699990003000000,
        mk_instance (WF 2 1 1699990004) 2 1 13 ACTIVE 1 1699990004000000],
     workflow_execution_log = [], collection_activities = [],
     credit_history = [], payment_promises = [], payments = [], payment_applications = []\<rparr>"

definition exec_db_after :: database where
  "exec_db_after = snd (snd (execute_pending_workflows clock0 0 exec_db))"

definition mk_promise ::
  "int \<Rightarrow> int option \<Rightarrow> real \<Rightarrow> date \<Rightarrow> promise_status \<Rightarrow> payment_promise" where
  "mk_promise pid ivo amount due st =
     \<lparr>pp_promise_id = pid, pp_customer_id = 1, pp_invoice_id = ivo, pp_promise_date = 19660,
      pp_promised_amount = amount, pp_promised_payment_date = due, pp_status = st,
      pp_actual_payment_date = None, pp_actual_payment_amount = None,
      pp_follow_up_date = Some (due - 1), pp_follow_up_completed = False,
      pp_escalation_required = False\<rparr>"

text \<open>
  \<open>promise_db\<close>: the instant of \<open>clock0\<close> falls on day 19675. Promise 1 (1000, due on day
  19670, linked to invoice 10) is ACTIVE, and a payment of 950 was applied to invoice 10
  on day 19672. Promise 2 is KEPT. Promise 3 (ACTIVE, due on day 19670) has no invoice.
\<close>

definition promise_db :: database where
  "promise_db = \<lparr>customers = [acme], invoices = [invoice_45],
     collection_workflows = [], workflow_steps = [],
     workflow_instances = [], workflow_execution_log = [], collection_activities = [],
     credit_history = [],
     payment_promises =
       [mk_promise 1 (Some 10) 1000 19670 P_ACTIVE,
        mk_promise 2 None 500 19668 KEPT,
        mk_promise 3 None 300 19670 P_ACTIVE],
     payments = [\<lparr>p_payment_id = 1, p_payment_date = 19672\<rparr>],
     payment_applications =
       [\<lparr>pa_payment_id = 1, pa_invoice_id = 10, pa_applied_amount = 950\<rparr>]\<rparr>"

definition promise_db_after :: database where
  "promise_db_after = snd (snd (process_overdue_promises ieee_double clock0 0 promise_db))"



definition promise_db_created :: database where
  "promise_db_created =
     snd (snd (create_payment_promise clock0 1 1000 (Good_date 19680) (Some 10) 0 promise_db))"

definition late_payer :: customer where
  "late_payer = \<lparr>c_customer_id = 2, c_customer_name = ''Borealis'',
     c_customer_type = Some ''REGULAR'', c_is_credit_hold = False, c_credit_limit = 0,
     c_payment_terms_days = 30, c_avg_days_to_pay = 60, c_payment_reliability_score = 0,
     c_total_sales_lifetime = 10000, c_customer_since = None\<rparr>"

definition mk_invoice :: "int \<Rightarrow> int \<Rightarrow> real \<Rightarrow> int \<Rightarrow> invoice" where
  "mk_invoice iid cid outstanding days =
     \<lparr>i_invoice_id = iid, i_customer_id = cid, i_outstanding_amount = outstanding,
      i_days_past_due = days, i_status = OPEN, i_collection_status = None,
      i_next_collection_action_date = None\<rparr>"

text \<open>
  \<open>score_db\<close>: customer 1 has invoices of 600 (45 days past due) and 100 (1 day past due).
  Customer 2, with reliability score 0, has an invoice of 600 that falls due in 90 days
  (days past due \<open>-90\<close>, as \<open>calculate_invoice_aging\<close> of ar_aging_analysis.py stores it) and
  one of 100 due today.
\<close>

definition score_db :: database where
  "score_db = \<lparr>customers = [acme, late_payer],
     invoices = [mk_invoice 20 1 600 45, mk_invoice 21 1 100 1,
                 mk_invoice 22 2 600 (- 90), mk_invoice 23 2 100 0],
     collection_workflows = [], workflow_steps = [],
     workflow_instances = [], workflow_execution_log = [], collection_activities = [],
     credit_history = [], payment_promises = [], payments = [], payment_applications = []\<rparr>"

section \<open>Trigger scan: proofs\<close>

lemma create_workflow_instance_ok:
  assumes "create_workflow_instance clk wid cid ivo n db = (Inr iid, n', db')"
  shows "\<exists>r. db' = db\<lparr>workflow_instances := workflow_instances db @ [r]\<rparr> \<and>
             wi_status r = PENDING \<and> wi_invoice_id r = ivo \<and> wi_workflow_id r = wid \<and>
             wi_customer_id r = cid \<and> wi_current_step r = 0 \<and> wi_instance_id r = iid \<and>
             iid \<notin> set (map wi_instance_id (workflow_instances db))"
  using assms unfolding create_workflow_instance_def Let_def
  by (auto split: if_splits)

lemma trigger_invoices_ok:
  assumes "trigger_invoices clk wid ms acc n db = (Inr acc', n', db')"
  shows "\<exists>rs. db' = db\<lparr>workflow_instances := workflow_instances db @ rs\<rparr> \<and>
              map wi_invoice_id rs = map (Some \<circ> fst) ms \<and>
              (\<forall>r\<in>set rs. wi_status r = PENDING \<and> wi_workflow_id r = wid \<and> wi_current_step r = 0) \<and>
              acc' = acc @ map wi_instance_id rs"
  using assms
proof (induction ms arbitrary: acc n db)
  case Nil
  then show ?case by (intro exI[of _ "[]"]) simp
next
  case (Cons m ms)
  obtain iid cid where m: "m = (iid, cid)" by (cases m)
  from Cons.prems m obtain i1 n1 db1 where
    c: "create_workflow_instance clk wid cid (Some iid) n db = (Inr i1, n1, db1)"
    and rest: "trigger_invoices clk wid ms (acc @ [i1]) n1 db1 = (Inr acc', n', db')"
    by (auto split: prod.splits sum.splits)
  from create_workflow_instance_ok[OF c] obtain r where
    r: "db1 = db\<lparr>workflow_instances := workflow_instances db @ [r]\<rparr>"
       "wi_status r = PENDING" "wi_invoice_id r = Some iid" "wi_workflow_id r = wid"
       "wi_current_step r = 0" "wi_instance_id r = i1"
    by blast
  from Cons.IH[OF rest] obtain rs where
    rs: "db' = db1\<lparr>workflow_instances := workflow_instances db1 @ rs\<rparr>"
        "map wi_invoice_id rs = map (Some \<circ> fst) ms"
        "\<forall>r\<in>set rs. wi_status r = PENDING \<and> wi_workflow_id r = wid \<and> wi_current_step r = 0"
        "acc' = (acc @ [i1]) @ map wi_instance_id rs"
    by blast
  show ?case
    using r rs m by (intro exI[of _ "r # rs"]) simp
qed


lemma active_invoice_ids_set:
  "set (active_invoice_ids db) =
     {i. \<exists>r \<in> set (workflow_instances db).
           (wi_status r = PENDING \<or> wi_status r = ACTIVE) \<and> wi_invoice_id r = Some i}"
  by (auto simp: active_invoice_ids_def split: option.splits)

lemma active_invoice_ids_append:
  assumes "\<forall>r \<in> set rs. wi_status r = PENDING"
  shows "set (active_invoice_ids (db\<lparr>workflow_instances := workflow_instances db @ rs\<rparr>)) =
           set (active_invoice_ids db) \<union> {i. Some i \<in> wi_invoice_id ` set rs}"
  using assms by (auto simp: active_invoice_ids_set image_iff) metis

lemma matching_invoices_set:
  "set (matching_invoices w db) =
     {(i_invoice_id i, i_customer_id i) | i c.
        i \<in> set (invoices db) \<and> c \<in> set (customers db) \<and> trigger_matches w i c \<and>
        i_invoice_id i \<notin> set (active_invoice_ids db)}"
  by (auto simp: matching_invoices_def)

lemma matching_invoices_empty:
  "matching_invoices w db = [] \<longleftrightarrow>
     (\<forall>i \<in> set (invoices db). \<forall>c \<in> set (customers db).
        trigger_matches w i c \<longrightarrow> i_invoice_id i \<in> set (active_invoice_ids db))"
proof -
  have "matching_invoices w db = [] \<longleftrightarrow> set (matching_invoices w db) = {}" by simp
  also have "\<dots> \<longleftrightarrow> (\<forall>i \<in> set (invoices db). \<forall>c \<in> set (customers db).
        trigger_matches w i c \<longrightarrow> i_invoice_id i \<in> set (active_invoice_ids db))"
    unfolding matching_invoices_set by auto
  finally show ?thesis .
qed

lemma filter_key_le_one:
  assumes "distinct (map g cs)"
  shows "length (filter (\<lambda>c. g c = k \<and> Q c) cs) \<le> 1"
  using assms
proof (induction cs)
  case Nil
  then show ?case by simp
next
  case (Cons c cs)
  show ?case
  proof (cases "g c = k")
    case True
    with Cons.prems have "\<forall>c' \<in> set cs. g c' \<noteq> k" by (auto simp: image_iff)
    then have "filter (\<lambda>c. g c = k \<and> Q c) cs = []" by (simp add: filter_empty_conv)
    then show ?thesis by simp
  next
    case False
    with Cons show ?thesis by simp
  qed
qed

lemma concat_if_const:
  "concat (map (\<lambda>c. if P c then [x] else []) cs) = map (\<lambda>c. x) (filter P cs)"
  by (induction cs) auto

lemma distinct_le_one: "length xs \<le> 1 \<Longrightarrow> distinct xs"
  by (cases xs) auto

lemma concat_keys_subset:
  assumes "\<And>i. set (map fst (one i)) \<subseteq> {g i}"
  shows "set (map fst (concat (map one is))) \<subseteq> g ` set is"
  using assms by (induction "is") (simp, fastforce)

lemma distinct_concat_keys:
  assumes "distinct (map g is)"
    and "\<And>i. distinct (map fst (one i))"
    and "\<And>i. set (map fst (one i)) \<subseteq> {g i}"
  shows "distinct (map fst (concat (map one is)))"
  using assms(1)
proof (induction "is")
  case Nil
  then show ?case by simp
next
  case (Cons i "is")
  have sub: "set (map fst (concat (map one is))) \<subseteq> g ` set is"
    by (rule concat_keys_subset[OF assms(3)])
  have nin: "g i \<notin> g ` set is" using Cons.prems by auto
  have "set (map fst (one i)) \<inter> set (map fst (concat (map one is))) = {}"
    using assms(3)[of i] sub nin by blast
  with Cons assms(2)[of i] show ?case by simp
qed

lemma matching_invoices_distinct:
  assumes di: "distinct (map i_invoice_id (invoices db))"
    and dc: "distinct (map c_customer_id (customers db))"
  shows "distinct (map fst (matching_invoices w db))"
proof -
  define A where "A = set (active_invoice_ids db)"
  define one where "one = (\<lambda>i. [(i_invoice_id i, i_customer_id i). c \<leftarrow> customers db,
                       trigger_matches w i c \<and> i_invoice_id i \<notin> A])"
  have one_eq: "\<And>i. one i = map (\<lambda>c. (i_invoice_id i, i_customer_id i))
                  (filter (\<lambda>c. trigger_matches w i c \<and> i_invoice_id i \<notin> A) (customers db))"
    by (simp add: one_def concat_if_const)
  have len: "\<And>i. length (one i) \<le> 1"
  proof -
    fix i
    have "filter (\<lambda>c. trigger_matches w i c \<and> i_invoice_id i \<notin> A) (customers db)
          = filter (\<lambda>c. c_customer_id c = i_customer_id i \<and>
                 (trigger_matches w i c \<and> i_invoice_id i \<notin> A)) (customers db)"
      by (rule filter_cong) (auto simp: trigger_matches_def)
    then have "length (filter (\<lambda>c. trigger_matches w i c \<and> i_invoice_id i \<notin> A) (customers db)) \<le> 1"
      using filter_key_le_one[OF dc] by simp
    then show "length (one i) \<le> 1" by (simp add: one_eq)
  qed
  have d1: "\<And>i. distinct (map fst (one i))"
    using len by (intro distinct_le_one) simp
  have s1: "\<And>i. set (map fst (one i)) \<subseteq> {i_invoice_id i}"
    by (auto simp: one_eq)
  have "matching_invoices w db = concat (map one (invoices db))"
    by (simp add: matching_invoices_def one_def A_def)
  then show ?thesis
    using distinct_concat_keys[OF di d1 s1] by simp
qed

lemma trigger_loop_noop:
  assumes "\<forall>w \<in> set ws. matching_invoices w db = []"
  shows "trigger_loop clk ws acc n db = (Inr acc, n, db)"
  using assms by (induction ws) simp_all

lemma append_rows_simps:
  "invoices (db\<lparr>workflow_instances := rows\<rparr>) = invoices db"
  "customers (db\<lparr>workflow_instances := rows\<rparr>) = customers db"
  "collection_workflows (db\<lparr>workflow_instances := rows\<rparr>) = collection_workflows db"
  by simp_all

lemma trigger_loop_ok:
  assumes run: "trigger_loop clk ws acc n db = (Inr acc', n', db')"
  shows "\<exists>rs. db' = db\<lparr>workflow_instances := workflow_instances db @ rs\<rparr> \<and>
          acc' = acc @ map wi_instance_id rs \<and>
          (\<forall>r \<in> set rs. wi_status r = PENDING \<and> wi_current_step r = 0 \<and>
             (\<exists>w \<in> set ws. \<exists>i \<in> set (invoices db). \<exists>c \<in> set (customers db).
                wi_workflow_id r = cw_workflow_id w \<and> wi_invoice_id r = Some (i_invoice_id i) \<and>
                trigger_matches w i c \<and> i_invoice_id i \<notin> set (active_invoice_ids db))) \<and>
          (distinct (map i_invoice_id (invoices db)) \<and>
           distinct (map c_customer_id (customers db)) \<longrightarrow> distinct (map wi_invoice_id rs)) \<and>
          (\<forall>w \<in> set ws. matching_invoices w db' = [])"
  using assms
proof (induction ws arbitrary: acc n db)
  case Nil
  then show ?case by (intro exI[of _ "[]"]) simp
next
  case (Cons w ws)
  let ?ms = "matching_invoices w db"
  from Cons.prems(1) obtain acc1 n1 db1 where
    inner: "trigger_invoices clk (cw_workflow_id w) ?ms acc n db = (Inr acc1, n1, db1)"
    and rest: "trigger_loop clk ws acc1 n1 db1 = (Inr acc', n', db')"
    by (auto split: prod.splits sum.splits)
  from trigger_invoices_ok[OF inner] obtain rs1 where
    rs1: "db1 = db\<lparr>workflow_instances := workflow_instances db @ rs1\<rparr>"
         "map wi_invoice_id rs1 = map (Some \<circ> fst) ?ms"
         "\<forall>r\<in>set rs1. wi_status r = PENDING \<and> wi_workflow_id r = cw_workflow_id w \<and> wi_current_step r = 0"
         "acc1 = acc @ map wi_instance_id rs1"
    by blast
  have inv1: "invoices db1 = invoices db" and cus1: "customers db1 = customers db"
    using rs1(1) by simp_all
  have pend1: "\<forall>r\<in>set rs1. wi_status r = PENDING" using rs1(3) by simp
  have act1: "set (active_invoice_ids db1) = set (active_invoice_ids db) \<union> fst ` set ?ms"
  proof -
    have "{i. Some i \<in> wi_invoice_id ` set rs1} = fst ` set ?ms"
    proof -
      have "wi_invoice_id ` set rs1 = set (map (Some \<circ> fst) ?ms)"
        using rs1(2) by (metis set_map)
      then show ?thesis by (auto simp: image_iff)
    qed
    then show ?thesis
      unfolding rs1(1) using active_invoice_ids_append[OF pend1, of db] by simp
  qed
  from Cons.IH[OF rest] obtain rs2 where
    rs2: "db' = db1\<lparr>workflow_instances := workflow_instances db1 @ rs2\<rparr>"
         "acc' = acc1 @ map wi_instance_id rs2"
         "\<forall>r \<in> set rs2. wi_status r = PENDING \<and> wi_current_step r = 0 \<and>
             (\<exists>w \<in> set ws. \<exists>i \<in> set (invoices db1). \<exists>c \<in> set (customers db1).
                wi_workflow_id r = cw_workflow_id w \<and> wi_invoice_id r = Some (i_invoice_id i) \<and>
                trigger_matches w i c \<and> i_invoice_id i \<notin> set (active_invoice_ids db1))"
         "distinct (map i_invoice_id (invoices db1)) \<and>
          distinct (map c_customer_id (customers db1)) \<longrightarrow> distinct (map wi_invoice_id rs2)"
         "\<forall>w \<in> set ws. matching_invoices w db' = []"
    by blast
  have pend2: "\<forall>r\<in>set rs2. wi_status r = PENDING" using rs2(3) by simp
  have act': "set (active_invoice_ids db') =
                set (active_invoice_ids db1) \<union> {i. Some i \<in> wi_invoice_id ` set rs2}"
    unfolding rs2(1) by (rule active_invoice_ids_append[OF pend2])
  have inv': "invoices db' = invoices db" and cus': "customers db' = customers db"
    using rs2(1) inv1 cus1 by simp_all
  show ?case
  proof (intro exI[of _ "rs1 @ rs2"] conjI ballI impI)
    show "db' = db\<lparr>workflow_instances := workflow_instances db @ rs1 @ rs2\<rparr>"
      using rs1(1) rs2(1) by simp
    show "acc' = acc @ map wi_instance_id (rs1 @ rs2)" using rs1(4) rs2(2) by simp
  next
    fix r assume r: "r \<in> set (rs1 @ rs2)"
    show "wi_status r = PENDING" using r pend1 pend2 by auto
    show "wi_current_step r = 0" using r rs1(3) rs2(3) by auto
    show "\<exists>w' \<in> set (w # ws). \<exists>i \<in> set (invoices db). \<exists>c \<in> set (customers db).
                wi_workflow_id r = cw_workflow_id w' \<and> wi_invoice_id r = Some (i_invoice_id i) \<and>
                trigger_matches w' i c \<and> i_invoice_id i \<notin> set (active_invoice_ids db)"
    proof (cases "r \<in> set rs1")
      case True
      then have "wi_invoice_id r \<in> set (map (Some \<circ> fst) ?ms)"
        using rs1(2) by (metis image_eqI set_map)
      then obtain m where m: "m \<in> set ?ms" "wi_invoice_id r = Some (fst m)" by auto
      then obtain i c where ic: "i \<in> set (invoices db)" "c \<in> set (customers db)"
        "trigger_matches w i c" "i_invoice_id i \<notin> set (active_invoice_ids db)" "fst m = i_invoice_id i"
        unfolding matching_invoices_set by auto
      with m True rs1(3) show ?thesis by auto
    next
      case False
      with r have "r \<in> set rs2" by simp
      with rs2(3) obtain w' i c where
        f: "w' \<in> set ws" "i \<in> set (invoices db1)" "c \<in> set (customers db1)"
        "wi_workflow_id r = cw_workflow_id w'" "wi_invoice_id r = Some (i_invoice_id i)"
        "trigger_matches w' i c" "i_invoice_id i \<notin> set (active_invoice_ids db1)"
        by blast
      have g: "i \<in> set (invoices db)" "c \<in> set (customers db)"
        "i_invoice_id i \<notin> set (active_invoice_ids db)" "w' \<in> set (w # ws)"
        using f inv1 cus1 act1 by simp_all
      show ?thesis
        by (intro bexI[of _ w'] bexI[of _ i] bexI[of _ c] conjI) (use f g in simp_all)
    qed
  next
    assume dd: "distinct (map i_invoice_id (invoices db)) \<and>
           distinct (map c_customer_id (customers db))"
    have d1: "distinct (map wi_invoice_id rs1)"
      unfolding rs1(2) using matching_invoices_distinct[of db w] dd
      by (simp add: distinct_map comp_def inj_on_def) 
    have "set (map wi_invoice_id rs1) \<inter> set (map wi_invoice_id rs2) = {}"
    proof (rule ccontr)
      assume "set (map wi_invoice_id rs1) \<inter> set (map wi_invoice_id rs2) \<noteq> {}"
      then obtain x where x1: "x \<in> set (map wi_invoice_id rs1)" and x2: "x \<in> set (map wi_invoice_id rs2)"
        by blast
      from x1 rs1(2) obtain m where m: "m \<in> set ?ms" "x = Some (fst m)" by auto
      from x2 obtain r where r: "r \<in> set rs2" "wi_invoice_id r = x" by auto
      with rs2(3) obtain i where "wi_invoice_id r = Some i" "i \<notin> set (active_invoice_ids db1)"
        by blast
      with m r act1 show False by auto
    qed
    with d1 rs2(4) dd inv1 cus1 show "distinct (map wi_invoice_id (rs1 @ rs2))" by simp
  next
    fix w' assume w': "w' \<in> set (w # ws)"
    show "matching_invoices w' db' = []"
    proof (cases "w' \<in> set ws")
      case True
      with rs2(5) show ?thesis by simp
    next
      case False
      with w' have [simp]: "w' = w" by simp
      show ?thesis
        unfolding matching_invoices_empty inv' cus'
      proof (intro ballI impI)
        fix i c assume ic: "i \<in> set (invoices db)" "c \<in> set (customers db)" "trigger_matches w' i c"
        show "i_invoice_id i \<in> set (active_invoice_ids db')"
        proof (cases "i_invoice_id i \<in> set (active_invoice_ids db)")
          case True
          then show ?thesis using act' act1 by simp
        next
          case False
          with ic have "(i_invoice_id i, i_customer_id i) \<in> set ?ms"
            unfolding matching_invoices_set by auto
          then have "i_invoice_id i \<in> fst ` set ?ms" by force
          then show ?thesis using act' act1 by simp
        qed
      qed
    qed
  qed
qed


lemma active_workflows_cong:
  "collection_workflows db' = collection_workflows db \<Longrightarrow> active_workflows db' = active_workflows db"
  by (simp add: active_workflows_def)

text \<open>
  After a scan that has returned normally, a second scan (under any clock) returns the
  empty list and leaves the database as it is, because for every active definition the
  trigger query now finds no invoice: each invoice that satisfies a trigger is covered by
  a PENDING or ACTIVE instance.
\<close>

lemma rescan_after_normal_return:
  assumes run: "trigger_workflows clk n db = (Inr triggered, n', db')"
  shows "trigger_workflows clk2 m db' = (Inr [], m, db') \<and>
         (\<forall>w \<in> set (active_workflows db'). matching_invoices w db' = [])"
proof -
  from run have loop: "trigger_loop clk (active_workflows db) [] n db = (Inr triggered, n', db')"
    by (simp add: trigger_workflows_def)
  from trigger_loop_ok[OF loop] obtain rs where
    rs: "db' = db\<lparr>workflow_instances := workflow_instances db @ rs\<rparr>"
    and cov: "\<forall>w \<in> set (active_workflows db). matching_invoices w db' = []"
    by blast
  have aw: "active_workflows db' = active_workflows db"
    using rs by (intro active_workflows_cong) simp
  show ?thesis
    unfolding trigger_workflows_def aw using cov trigger_loop_noop by simp
qed

lemma scan_run:
  "trigger_workflows clock0 0 scan_db = (Inr [WF 1 1 1700000000], 3, scan_db_after)"
proof -
  have "fst (trigger_workflows clock0 0 scan_db) = Inr [WF 1 1 1700000000]" by code_simp
  moreover have "fst (snd (trigger_workflows clock0 0 scan_db)) = 3" by code_simp
  ultimately show ?thesis by (simp add: scan_db_after_def prod_eq_iff)
qed

text \<open>
  On \<open>scan_db\<close> the first scan creates one instance and the second scan none.
\<close>

lemma rescan_after_normal_return_example:
  "trigger_workflows clock0 0 scan_db = (Inr [WF 1 1 1700000000], 3, scan_db_after) \<and>
   trigger_workflows clock0 3 scan_db_after = (Inr [], 3, scan_db_after)"
  using rescan_after_normal_return[OF scan_run, of clock0 3] scan_run by simp

text \<open>
  C1. Running \<open>trigger_workflows\<close> twice in succession, with nothing in between, should add
  no workflow instance the second time. It does add one on \<open>scan_db2\<close>, where two invoices
  of one customer satisfy the trigger of the first workflow. The instance id is made of
  the workflow id, the customer id and the second of the clock reading, but not of the
  invoice id; the two instances are created within the same second, so the second insert
  violates the primary key and the first scan ends with an IntegrityError after the
  instance for invoice 10 has been committed. The second scan, a second later, creates the
  instance for invoice 11, which the first scan left uncovered.
\<close>

theorem second_scan_creates_instance:
  "fst (trigger_workflows clock_quarter 0 scan_db2) = Inl IntegrityError \<and>
   fst (snd (trigger_workflows clock_quarter 0 scan_db2)) = 5 \<and>
   map wi_instance_id (workflow_instances scan_db2_first) = [WF 1 1 1700000000] \<and>
   map wi_invoice_id (workflow_instances scan_db2_first) = [Some 10] \<and>
   fst (trigger_workflows clock_quarter 5 scan_db2_first) = Inr [WF 1 1 1700000001] \<and>
   map wi_instance_id (workflow_instances scan_db2_second) =
     [WF 1 1 1700000000, WF 1 1 1700000001] \<and>
   map wi_invoice_id (workflow_instances scan_db2_second) = [Some 10, Some 11] \<and>
   map wi_status (workflow_instances scan_db2_second) = [PENDING, PENDING]"
  by code_simp

lemma count_one:
  assumes "distinct (map f xs)" and "y \<in> f ` set xs"
  shows "length (filter (\<lambda>x. f x = y) xs) = 1"
  using assms
proof (induction xs)
  case Nil
  then show ?case by simp
next
  case (Cons x xs)
  show ?case
  proof (cases "f x = y")
    case True
    with Cons.prems have "\<forall>x' \<in> set xs. f x' \<noteq> y" by (auto simp: image_iff)
    then have "filter (\<lambda>x. f x = y) xs = []" by (simp add: filter_empty_conv)
    with True show ?thesis by simp
  next
    case False
    with Cons show ?thesis by auto
  qed
qed

text \<open>
  C2, as stated, fails. The trigger query excludes an invoice that is covered by a
  PENDING or ACTIVE instance of any definition, not only of the definition being scanned,
  and it sees the instances created earlier in the same scan. In \<open>scan_db\<close> the invoice
  satisfies the trigger of the active definition 2 and no instance of definition 2 (no
  instance at all) covers it, yet the scan creates a single instance, for definition 1,
  and none for the pair (definition 2, invoice 10).
\<close>

theorem scan_skips_second_definition:
  "collection_workflows scan_db = [early_workflow, standard_workflow, hold_workflow] \<and>
   invoices scan_db = [invoice_45] \<and> customers scan_db = [acme] \<and>
   cw_is_active standard_workflow \<and> cw_workflow_id standard_workflow = 2 \<and>
   trigger_matches standard_workflow invoice_45 acme \<and>
   workflow_instances scan_db = [] \<and>
   fst (trigger_workflows clock0 0 scan_db) = Inr [WF 1 1 1700000000] \<and>
   map wi_workflow_id (workflow_instances scan_db_after) = [1] \<and>
   map wi_invoice_id (workflow_instances scan_db_after) = [Some 10]"
proof -
  have "collection_workflows scan_db = [early_workflow, standard_workflow, hold_workflow]"
    "invoices scan_db = [invoice_45]" "customers scan_db = [acme]" "workflow_instances scan_db = []"
    by (simp_all add: scan_db_def)
  moreover have "cw_is_active standard_workflow" "cw_workflow_id standard_workflow = 2"
    by (simp_all add: standard_workflow_def)
  moreover have "trigger_matches standard_workflow invoice_45 acme" by code_simp
  moreover have "fst (trigger_workflows clock0 0 scan_db) = Inr [WF 1 1 1700000000]" by code_simp
  moreover have "map wi_workflow_id (workflow_instances scan_db_after) = [1]"
    unfolding scan_db_after_def by code_simp
  moreover have "map wi_invoice_id (workflow_instances scan_db_after) = [Some 10]"
    unfolding scan_db_after_def by code_simp
  ultimately show ?thesis by simp
qed

text \<open>
  C2, amended. With invoice ids and customer ids unique (they are primary keys), a scan
  that returns normally appends new instances only; each new instance is PENDING at step
  0, for an active definition and an invoice that satisfies its trigger and was covered by
  no PENDING or ACTIVE instance of any definition before the scan. Every invoice that
  satisfies the trigger of at least one active definition and was not covered gets exactly
  one new instance (whatever the number of definitions it satisfies), and an invoice that
  was covered gets none.
\<close>

theorem trigger_workflows_one_instance_per_invoice:
  assumes di: "distinct (map i_invoice_id (invoices db))"
    and dc: "distinct (map c_customer_id (customers db))"
    and run: "trigger_workflows clk n db = (Inr triggered, n', db')"
  shows "\<exists>rs. workflow_instances db' = workflow_instances db @ rs \<and>
           triggered = map wi_instance_id rs \<and>
           (\<forall>r \<in> set rs. wi_status r = PENDING \<and> wi_current_step r = 0 \<and>
              (\<exists>w \<in> set (active_workflows db). \<exists>i \<in> set (invoices db). \<exists>c \<in> set (customers db).
                 wi_workflow_id r = cw_workflow_id w \<and> wi_invoice_id r = Some (i_invoice_id i) \<and>
                 trigger_matches w i c \<and> i_invoice_id i \<notin> set (active_invoice_ids db))) \<and>
           (\<forall>i \<in> set (invoices db).
              (\<exists>w \<in> set (active_workflows db). \<exists>c \<in> set (customers db). trigger_matches w i c) \<and>
              i_invoice_id i \<notin> set (active_invoice_ids db) \<longrightarrow>
              length (filter (\<lambda>r. wi_invoice_id r = Some (i_invoice_id i)) rs) = 1) \<and>
           (\<forall>k \<in> set (active_invoice_ids db). filter (\<lambda>r. wi_invoice_id r = Some k) rs = [])"
proof -
  from run have loop: "trigger_loop clk (active_workflows db) [] n db = (Inr triggered, n', db')"
    by (simp add: trigger_workflows_def)
  from trigger_loop_ok[OF loop] di dc obtain rs where
    rs: "db' = db\<lparr>workflow_instances := workflow_instances db @ rs\<rparr>"
    and tr: "triggered = map wi_instance_id rs"
    and each: "\<forall>r \<in> set rs. wi_status r = PENDING \<and> wi_current_step r = 0 \<and>
             (\<exists>w \<in> set (active_workflows db). \<exists>i \<in> set (invoices db). \<exists>c \<in> set (customers db).
                wi_workflow_id r = cw_workflow_id w \<and> wi_invoice_id r = Some (i_invoice_id i) \<and>
                trigger_matches w i c \<and> i_invoice_id i \<notin> set (active_invoice_ids db))"
    and dist: "distinct (map wi_invoice_id rs)"
    and cov: "\<forall>w \<in> set (active_workflows db). matching_invoices w db' = []"
    by auto
  have pend: "\<forall>r\<in>set rs. wi_status r = PENDING" using each by simp
  have act': "set (active_invoice_ids db') =
                set (active_invoice_ids db) \<union> {i. Some i \<in> wi_invoice_id ` set rs}"
    unfolding rs by (rule active_invoice_ids_append[OF pend])
  have inv': "invoices db' = invoices db" and cus': "customers db' = customers db"
    using rs by simp_all
  show ?thesis
  proof (intro exI[of _ rs] conjI ballI impI)
    show "workflow_instances db' = workflow_instances db @ rs" using rs by simp
    show "triggered = map wi_instance_id rs" by (rule tr)
  next
    fix r assume "r \<in> set rs"
    with each show "wi_status r = PENDING" "wi_current_step r = 0"
      "\<exists>w \<in> set (active_workflows db). \<exists>i \<in> set (invoices db). \<exists>c \<in> set (customers db).
                 wi_workflow_id r = cw_workflow_id w \<and> wi_invoice_id r = Some (i_invoice_id i) \<and>
                 trigger_matches w i c \<and> i_invoice_id i \<notin> set (active_invoice_ids db)"
      by blast+
  next
    fix i assume i: "i \<in> set (invoices db)"
      and q: "(\<exists>w \<in> set (active_workflows db). \<exists>c \<in> set (customers db). trigger_matches w i c) \<and>
              i_invoice_id i \<notin> set (active_invoice_ids db)"
    then obtain w c where wc: "w \<in> set (active_workflows db)" "c \<in> set (customers db)"
      "trigger_matches w i c" by blast
    from cov wc(1) have "matching_invoices w db' = []" by simp
    then have "i_invoice_id i \<in> set (active_invoice_ids db')"
      unfolding matching_invoices_empty inv' cus' using i wc by blast
    with q act' have "Some (i_invoice_id i) \<in> wi_invoice_id ` set rs" by simp
    with dist show "length (filter (\<lambda>r. wi_invoice_id r = Some (i_invoice_id i)) rs) = 1"
      by (rule count_one)
  next
    fix k assume k: "k \<in> set (active_invoice_ids db)"
    have "\<forall>r \<in> set rs. wi_invoice_id r \<noteq> Some k"
    proof
      fix r assume "r \<in> set rs"
      with each obtain i :: invoice where "wi_invoice_id r = Some (i_invoice_id i)"
        "i_invoice_id i \<notin> set (active_invoice_ids db)" by blast
      with k show "wi_invoice_id r \<noteq> Some k" by auto
    qed
    then show "filter (\<lambda>r. wi_invoice_id r = Some k) rs = []"
      by (simp add: filter_empty_conv)
  qed
qed

text \<open>
  On \<open>scan_db\<close> the invoice satisfies a trigger and is not covered, and the scan creates
  exactly one instance for it.
\<close>

theorem trigger_workflows_one_instance_per_invoice_witness:
  "distinct (map i_invoice_id (invoices scan_db)) \<and>
   distinct (map c_customer_id (customers scan_db)) \<and>
   trigger_workflows clock0 0 scan_db = (Inr [WF 1 1 1700000000], 3, scan_db_after) \<and>
   invoice_45 \<in> set (invoices scan_db) \<and>
   early_workflow \<in> set (active_workflows scan_db) \<and> acme \<in> set (customers scan_db) \<and>
   trigger_matches early_workflow invoice_45 acme \<and>
   i_invoice_id invoice_45 \<notin> set (active_invoice_ids scan_db) \<and>
   (\<exists>rs. workflow_instances scan_db_after = workflow_instances scan_db @ rs \<and>
         length (filter (\<lambda>r. wi_invoice_id r = Some (i_invoice_id invoice_45)) rs) = 1)"
proof -
  have di: "distinct (map i_invoice_id (invoices scan_db))" by code_simp
  have dc: "distinct (map c_customer_id (customers scan_db))" by code_simp
  have i: "invoice_45 \<in> set (invoices scan_db)" by (simp add: scan_db_def)
  have w: "early_workflow \<in> set (active_workflows scan_db)" by code_simp
  have c: "acme \<in> set (customers scan_db)" by (simp add: scan_db_def)
  have m: "trigger_matches early_workflow invoice_45 acme" by code_simp
  have a: "i_invoice_id invoice_45 \<notin> set (active_invoice_ids scan_db)" by code_simp
  from trigger_workflows_one_instance_per_invoice[OF di dc scan_run] obtain rs where
    rs: "workflow_instances scan_db_after = workflow_instances scan_db @ rs"
    and one: "\<forall>i \<in> set (invoices scan_db).
              (\<exists>w \<in> set (active_workflows scan_db). \<exists>c \<in> set (customers scan_db). trigger_matches w i c) \<and>
              i_invoice_id i \<notin> set (active_invoice_ids scan_db) \<longrightarrow>
              length (filter (\<lambda>r. wi_invoice_id r = Some (i_invoice_id i)) rs) = 1"
    by blast
  from one i w c m a have "length (filter (\<lambda>r. wi_invoice_id r = Some (i_invoice_id invoice_45)) rs) = 1"
    by blast
  with rs di dc scan_run i w c m a show ?thesis by blast
qed

section \<open>Step execution: proofs\<close>

lemma update_instance_simps:
  "workflow_instances (update_instance iid f db) =
     map (\<lambda>r. if wi_instance_id r = iid then f r else r) (workflow_instances db)"
  "workflow_steps (update_instance iid f db) = workflow_steps db"
  "collection_workflows (update_instance iid f db) = collection_workflows db"
  "customers (update_instance iid f db) = customers db"
  "invoices (update_instance iid f db) = invoices db"
  by (simp_all add: update_instance_def)

lemma execute_action_frame:
  assumes "execute_action clk a cid ivo tmpl asg n db = (out, n', db')"
  shows "workflow_instances db' = workflow_instances db \<and>
         workflow_steps db' = workflow_steps db \<and>
         collection_workflows db' = collection_workflows db \<and>
         (\<forall>e. out = Inl e \<longrightarrow> db' = db)"
  using assms
  unfolding execute_action_def send_email_reminder_def schedule_phone_call_def
    generate_dunning_letter_def apply_credit_hold_def create_legal_referral_def
    escalate_case_def add_activity_def Let_def
  by (auto split: if_splits option.splits)

lemma instance_data_row:
  assumes d: "distinct (map wi_instance_id (workflow_instances db))"
    and r: "r \<in> set (workflow_instances db)"
    and j: "instance_data db (wi_instance_id r) = (wi, cw) # rest"
  shows "wi = r"
proof -
  have "(wi, cw) \<in> set (instance_data db (wi_instance_id r))"
    unfolding j by simp
  then have "wi \<in> set (workflow_instances db)" "wi_instance_id wi = wi_instance_id r"
    by (auto simp: instance_data_def)
  with d r show ?thesis by (meson distinct_map inj_onD)
qed

lemma timedelta_days_0 [simp]: "timedelta_days 0 = 0"
  by (simp add: timedelta_days_def)

lemma max_step_order_cong:
  "workflow_steps db' = workflow_steps db \<Longrightarrow> max_step_order w db' = max_step_order w db"
  by (simp add: max_step_order_def)

lemma execute_workflow_instance_cases:
  assumes ex: "execute_workflow_instance clk iid n db = (out, n', db')"
  obtains
    (not_found) "out = Inl ValueError" "db' = db"
      "instance_data db iid = []"
  | (no_step) wi cw rest where
      "instance_data db iid = (wi, cw) # rest"
      "List.find (step_query wi) (workflow_steps db) = None"
      "out = Inr All_steps_executed" "n' = n + 1"
      "db' = update_instance iid (\<lambda>r. r\<lparr>wi_status := COMPLETED, wi_completed_date := Some (clk n)\<rparr>) db"
  | (action_failed) wi cw rest step e where
      "instance_data db iid = (wi, cw) # rest"
      "List.find (step_query wi) (workflow_steps db) = Some step"
      "out = Inl e" "db' = db"
  | (action_done) wi cw rest step res m dba where
      "instance_data db iid = (wi, cw) # rest"
      "List.find (step_query wi) (workflow_steps db) = Some step"
      "execute_action clk (ws_action_type step) (wi_customer_id wi) (wi_invoice_id wi)
         (ws_template_id step) (ws_assigned_to step) n db = (Inr res, m, dba)"
      "out = Inr (Action_executed (ws_action_type step) (clk m + timedelta_days (ws_delay_days step)))"
      "n' = m + 2"
      "db' = update_instance iid
         (\<lambda>r. r\<lparr>wi_current_step := wi_current_step wi + 1,
                 wi_scheduled_date := clk m + timedelta_days (ws_delay_days step),
                 wi_last_action_date := Some (clk (m + 1)),
                 wi_status := (if Some (wi_current_step wi + 1) = max_step_order (wi_workflow_id wi) db
                               then COMPLETED else ACTIVE)\<rparr>)
         (dba\<lparr>workflow_execution_log := workflow_execution_log dba @
            [\<lparr>wl_instance_id = iid, wl_step_id = ws_step_id step, wl_status = ''SUCCESS''\<rparr>]\<rparr>)"
proof -
  let ?J = "instance_data db iid"
  show thesis
  proof (cases ?J)
    case Nil
    with ex have "out = Inl ValueError" "db' = db"
      by (simp_all add: execute_workflow_instance_def)
    then show thesis using Nil by (intro not_found) auto
  next
    case (Cons p rest)
    obtain wi cw where p: "p = (wi, cw)" by (cases p)
    have J: "?J = (wi, cw) # rest" using Cons p by simp
    show thesis
    proof (cases "List.find (step_query wi) (workflow_steps db)")
      case None
      with ex J have "out = Inr All_steps_executed" "n' = n + 1"
        "db' = update_instance iid (\<lambda>r. r\<lparr>wi_status := COMPLETED, wi_completed_date := Some (clk n)\<rparr>) db"
        by (simp_all add: execute_workflow_instance_def Let_def mark_instance_completed_def)
      then show thesis using J None by (intro no_step) auto
    next
      case (Some step)
      obtain o2 m dba where act: "execute_action clk (ws_action_type step) (wi_customer_id wi) (wi_invoice_id wi)
         (ws_template_id step) (ws_assigned_to step) n db = (o2, m, dba)"
        by (metis prod_cases3)
      show thesis
      proof (cases o2)
        case (Inl e)
        with ex J Some act have "out = Inl e" "db' = dba"
          by (simp_all add: execute_workflow_instance_def Let_def)
        moreover have "dba = db" using execute_action_frame[OF act] Inl by simp
        ultimately show thesis using J Some by (intro action_failed) auto
      next
        case (Inr res)
        have ms: "max_step_order (wi_workflow_id wi) (dba\<lparr>workflow_execution_log := workflow_execution_log dba @
            [\<lparr>wl_instance_id = iid, wl_step_id = ws_step_id step, wl_status = ''SUCCESS''\<rparr>]\<rparr>)
            = max_step_order (wi_workflow_id wi) db"
          using execute_action_frame[OF act] by (simp add: max_step_order_def)
        from ex J Some act Inr have
          "out = Inr (Action_executed (ws_action_type step) (clk m + timedelta_days (ws_delay_days step)))"
          "n' = m + 2"
          "db' = update_instance iid
         (\<lambda>r. r\<lparr>wi_current_step := wi_current_step wi + 1,
                 wi_scheduled_date := clk m + timedelta_days (ws_delay_days step),
                 wi_last_action_date := Some (clk (m + 1)),
                 wi_status := (if Some (wi_current_step wi + 1) = max_step_order (wi_workflow_id wi) db
                               then COMPLETED else ACTIVE)\<rparr>)
         (dba\<lparr>workflow_execution_log := workflow_execution_log dba @
            [\<lparr>wl_instance_id = iid, wl_step_id = ws_step_id step, wl_status = ''SUCCESS''\<rparr>]\<rparr>)"
          by (auto simp: execute_workflow_instance_def Let_def ms)
        with J Some act Inr show thesis by (intro action_done) auto
      qed
    qed
  qed
qed


lemma execute_workflow_instance_rows:
  assumes ex: "execute_workflow_instance clk iid n db = (out, n', db')"
  shows "\<exists>f. (\<forall>r. wi_instance_id (f r) = wi_instance_id r) \<and>
           workflow_instances db' =
             map (\<lambda>r. if wi_instance_id r = iid then f r else r) (workflow_instances db)"
    and "workflow_steps db' = workflow_steps db"
    and "collection_workflows db' = collection_workflows db"
proof -
  have "(\<exists>f. (\<forall>r. wi_instance_id (f r) = wi_instance_id r) \<and>
           workflow_instances db' =
             map (\<lambda>r. if wi_instance_id r = iid then f r else r) (workflow_instances db)) \<and>
        workflow_steps db' = workflow_steps db \<and>
        collection_workflows db' = collection_workflows db"
    using ex
  proof (cases rule: execute_workflow_instance_cases)
    case not_found
    then show ?thesis by (intro conjI exI[of _ "\<lambda>r. r"]) (simp_all add: map_idI)
  next
    case (no_step wi cw rest)
    then show ?thesis
      by (intro conjI exI[of _ "\<lambda>r. r\<lparr>wi_status := COMPLETED, wi_completed_date := Some (clk n)\<rparr>"])
         (simp_all add: update_instance_simps)
  next
    case (action_failed wi cw rest step e)
    then show ?thesis by (intro conjI exI[of _ "\<lambda>r. r"]) (simp_all add: map_idI)
  next
    case (action_done wi cw rest step res m dba)
    note fr = execute_action_frame[OF action_done(3)]
    show ?thesis
      unfolding action_done(6)
      by (intro conjI exI[of _ "\<lambda>r. r\<lparr>wi_current_step := wi_current_step wi + 1,
                 wi_scheduled_date := clk m + timedelta_days (ws_delay_days step),
                 wi_last_action_date := Some (clk (m + 1)),
                 wi_status := (if Some (wi_current_step wi + 1) = max_step_order (wi_workflow_id wi) db
                               then COMPLETED else ACTIVE)\<rparr>"])
         (simp_all add: update_instance_simps fr)
  qed
  then show "\<exists>f. (\<forall>r. wi_instance_id (f r) = wi_instance_id r) \<and>
           workflow_instances db' =
             map (\<lambda>r. if wi_instance_id r = iid then f r else r) (workflow_instances db)"
    and "workflow_steps db' = workflow_steps db"
    and "collection_workflows db' = collection_workflows db"
    by blast+
qed

lemma mark_instance_failed_simps:
  "workflow_instances (mark_instance_failed iid e db) =
     map (\<lambda>r. if wi_instance_id r = iid then r\<lparr>wi_status := FAILED, wi_failure_reason := Some e\<rparr> else r)
       (workflow_instances db)"
  "workflow_steps (mark_instance_failed iid e db) = workflow_steps db"
  "collection_workflows (mark_instance_failed iid e db) = collection_workflows db"
  by (simp_all add: mark_instance_failed_def update_instance_simps)

text \<open>One pass of the loop body: the execution and, on an exception, the FAILED mark.\<close>

lemma loop_body_frame:
  assumes ex: "execute_workflow_instance clk iid n db = (out, n', db')"
    and db'': "db'' = (case out of Inl e \<Rightarrow> mark_instance_failed iid e db' | Inr x \<Rightarrow> db')"
  shows "map wi_instance_id (workflow_instances db'') = map wi_instance_id (workflow_instances db)"
    and "workflow_steps db'' = workflow_steps db"
    and "collection_workflows db'' = collection_workflows db"
    and "\<And>j. j < length (workflow_instances db) \<Longrightarrow> wi_instance_id (workflow_instances db ! j) \<noteq> iid
           \<Longrightarrow> workflow_instances db'' ! j = workflow_instances db ! j"
proof -
  from execute_workflow_instance_rows(1)[OF ex] obtain f where
    f: "\<forall>r. wi_instance_id (f r) = wi_instance_id r"
       "workflow_instances db' = map (\<lambda>r. if wi_instance_id r = iid then f r else r) (workflow_instances db)"
    by blast
  note st = execute_workflow_instance_rows(2,3)[OF ex]
  show "map wi_instance_id (workflow_instances db'') = map wi_instance_id (workflow_instances db)"
    using f db'' by (cases out) (auto simp: mark_instance_failed_simps)
  show "workflow_steps db'' = workflow_steps db"
    using st db'' by (cases out) (simp_all add: mark_instance_failed_simps)
  show "collection_workflows db'' = collection_workflows db"
    using st db'' by (cases out) (simp_all add: mark_instance_failed_simps)
  show "\<And>j. j < length (workflow_instances db) \<Longrightarrow> wi_instance_id (workflow_instances db ! j) \<noteq> iid
           \<Longrightarrow> workflow_instances db'' ! j = workflow_instances db ! j"
    using f db'' by (cases out) (auto simp: mark_instance_failed_simps)
qed

lemma execute_loop_frame:
  assumes "execute_loop clk ids res n db = (res', n', db')"
  shows "map wi_instance_id (workflow_instances db') = map wi_instance_id (workflow_instances db) \<and>
         workflow_steps db' = workflow_steps db \<and>
         collection_workflows db' = collection_workflows db \<and>
         (\<forall>j < length (workflow_instances db).
            wi_instance_id (workflow_instances db ! j) \<notin> set ids \<longrightarrow>
            workflow_instances db' ! j = workflow_instances db ! j)"
  using assms
proof (induction ids arbitrary: res n db)
  case Nil
  then show ?case by simp
next
  case (Cons iid ids)
  obtain out n1 db1 where ex: "execute_workflow_instance clk iid n db = (out, n1, db1)"
    by (metis prod_cases3)
  define db2 where "db2 = (case out of Inl e \<Rightarrow> mark_instance_failed iid e db1 | Inr x \<Rightarrow> db1)"
  from Cons.prems ex obtain res1 where rest: "execute_loop clk ids res1 n1 db2 = (res', n', db')"
    by (cases out) (auto simp: db2_def)
  note b = loop_body_frame[OF ex db2_def]
  note ih = Cons.IH[OF rest]
  have len: "length (workflow_instances db2) = length (workflow_instances db)"
    using b(1) by (metis length_map)
  show ?case
  proof (intro conjI allI impI)
    show "map wi_instance_id (workflow_instances db') = map wi_instance_id (workflow_instances db)"
      using ih b(1) by simp
    show "workflow_steps db' = workflow_steps db" using ih b(2) by simp
    show "collection_workflows db' = collection_workflows db" using ih b(3) by simp
  next
    fix j assume j: "j < length (workflow_instances db)"
      and nin: "wi_instance_id (workflow_instances db ! j) \<notin> set (iid # ids)"
    then have e1: "workflow_instances db2 ! j = workflow_instances db ! j"
      using b(4) by simp
    with ih j nin len show "workflow_instances db' ! j = workflow_instances db ! j"
      by simp
  qed
qed


lemma execute_loop_rows:
  assumes "execute_loop clk ids res n db = (res', n', db')" and "distinct ids"
  shows "\<exists>new. instances res' = instances res @ new \<and> map fst new = ids \<and>
      (\<forall>(iid, out) \<in> set new. \<exists>n1 db1 n2 db2.
          execute_workflow_instance clk iid n1 db1 = (out, n2, db2) \<and>
          map wi_instance_id (workflow_instances db1) = map wi_instance_id (workflow_instances db) \<and>
          workflow_steps db1 = workflow_steps db \<and>
          collection_workflows db1 = collection_workflows db \<and>
          (\<forall>j < length (workflow_instances db).
              wi_instance_id (workflow_instances db ! j) = iid \<longrightarrow>
              workflow_instances db1 ! j = workflow_instances db ! j \<and>
              workflow_instances db' ! j =
                workflow_instances
                  (case out of Inl e \<Rightarrow> mark_instance_failed iid e db2 | Inr x \<Rightarrow> db2) ! j))"
  using assms
proof (induction ids arbitrary: res n db)
  case Nil
  then show ?case by simp
next
  case (Cons iid ids)
  obtain out n1 db1 where ex: "execute_workflow_instance clk iid n db = (out, n1, db1)"
    by (metis prod_cases3)
  define db2 where "db2 = (case out of Inl e \<Rightarrow> mark_instance_failed iid e db1 | Inr x \<Rightarrow> db1)"
  define res1 where "res1 = (case out of
       Inl e \<Rightarrow> res\<lparr>instances := instances res @ [(iid, Inl e)], failed := failed res + 1\<rparr>
     | Inr x \<Rightarrow> res\<lparr>instances := instances res @ [(iid, Inr x)], executed := executed res + 1\<rparr>)"
  have res1: "instances res1 = instances res @ [(iid, out)]"
    by (cases out) (simp_all add: res1_def)
  from Cons.prems(1) ex have rest: "execute_loop clk ids res1 n1 db2 = (res', n', db')"
    by (cases out) (auto simp: db2_def res1_def)
  from Cons.prems(2) have dids: "distinct ids" and nin: "iid \<notin> set ids" by simp_all
  note b = loop_body_frame[OF ex db2_def]
  have len: "length (workflow_instances db2) = length (workflow_instances db)"
    using b(1) by (metis length_map)
  from Cons.IH[OF rest dids] obtain new where
    new: "instances res' = instances res1 @ new" "map fst new = ids"
    and each: "\<forall>(iid, out) \<in> set new. \<exists>n1 db1 n2 db3.
          execute_workflow_instance clk iid n1 db1 = (out, n2, db3) \<and>
          map wi_instance_id (workflow_instances db1) = map wi_instance_id (workflow_instances db2) \<and>
          workflow_steps db1 = workflow_steps db2 \<and>
          collection_workflows db1 = collection_workflows db2 \<and>
          (\<forall>j < length (workflow_instances db2).
              wi_instance_id (workflow_instances db2 ! j) = iid \<longrightarrow>
              workflow_instances db1 ! j = workflow_instances db2 ! j \<and>
              workflow_instances db' ! j =
                workflow_instances
                  (case out of Inl e \<Rightarrow> mark_instance_failed iid e db3 | Inr x \<Rightarrow> db3) ! j)"
    by blast
  note fr = execute_loop_frame[OF rest]
  have ids2: "\<And>j. j < length (workflow_instances db) \<Longrightarrow>
      wi_instance_id (workflow_instances db2 ! j) = wi_instance_id (workflow_instances db ! j)"
    using b(1) len by (metis nth_map)
  show ?case
  proof (intro exI[of _ "(iid, out) # new"] conjI ballI)
    show "instances res' = instances res @ (iid, out) # new" using new res1 by simp
    show "map fst ((iid, out) # new) = iid # ids" using new by simp
  next
    fix p assume p: "p \<in> set ((iid, out) # new)"
    obtain i o' where po: "p = (i, o')" by (cases p)
    show "case p of (iid, out) \<Rightarrow> \<exists>n1 db1 n2 db2.
          execute_workflow_instance clk iid n1 db1 = (out, n2, db2) \<and>
          map wi_instance_id (workflow_instances db1) = map wi_instance_id (workflow_instances db) \<and>
          workflow_steps db1 = workflow_steps db \<and>
          collection_workflows db1 = collection_workflows db \<and>
          (\<forall>j < length (workflow_instances db).
              wi_instance_id (workflow_instances db ! j) = iid \<longrightarrow>
              workflow_instances db1 ! j = workflow_instances db ! j \<and>
              workflow_instances db' ! j =
                workflow_instances
                  (case out of Inl e \<Rightarrow> mark_instance_failed iid e db2 | Inr x \<Rightarrow> db2) ! j)"
    proof (cases "p = (iid, out)")
      case True
      have "\<forall>j < length (workflow_instances db).
              wi_instance_id (workflow_instances db ! j) = iid \<longrightarrow>
              workflow_instances db' ! j = workflow_instances db2 ! j"
        using fr nin len ids2 by auto
      then show ?thesis
        unfolding True prod.case
        by (intro exI[of _ n] exI[of _ db] exI[of _ n1] exI[of _ db1]) (use ex db2_def in auto)
    next
      case False
      with p po have pin: "(i, o') \<in> set new" by auto
      then have ine: "i \<noteq> iid" using new(2) nin by (metis fst_conv image_eqI set_map)
      from each pin obtain m1 d1 m2 d3 where
        e: "execute_workflow_instance clk i m1 d1 = (o', m2, d3)"
           "map wi_instance_id (workflow_instances d1) = map wi_instance_id (workflow_instances db2)"
           "workflow_steps d1 = workflow_steps db2"
           "collection_workflows d1 = collection_workflows db2"
           "\<forall>j < length (workflow_instances db2).
              wi_instance_id (workflow_instances db2 ! j) = i \<longrightarrow>
              workflow_instances d1 ! j = workflow_instances db2 ! j \<and>
              workflow_instances db' ! j =
                workflow_instances
                  (case o' of Inl e \<Rightarrow> mark_instance_failed i e d3 | Inr x \<Rightarrow> d3) ! j"
        by blast
      have "\<forall>j < length (workflow_instances db).
              wi_instance_id (workflow_instances db ! j) = i \<longrightarrow>
              workflow_instances d1 ! j = workflow_instances db ! j \<and>
              workflow_instances db' ! j =
                workflow_instances
                  (case o' of Inl e \<Rightarrow> mark_instance_failed i e d3 | Inr x \<Rightarrow> d3) ! j"
        using e(5) len ids2 b(4) ine by auto
      then show ?thesis
        unfolding po prod.case
        by (intro exI[of _ m1] exI[of _ d1] exI[of _ m2] exI[of _ d3]) (use e(1-4) b(1-3) in auto)
    qed
  qed
qed

lemma pending_instances_distinct:
  assumes "distinct (map wi_instance_id (workflow_instances db))"
  shows "distinct (map wi_instance_id (pending_instances now db))"
proof -
  have "distinct (workflow_instances db)" "inj_on wi_instance_id (set (workflow_instances db))"
    using assms by (simp_all add: distinct_map)
  then show ?thesis
    unfolding pending_instances_def
    by (auto simp: distinct_map intro: inj_on_subset)
qed

lemma pending_instances_set:
  "set (pending_instances now db) =
     {r \<in> set (workflow_instances db). wi_status r = PENDING \<and> wi_scheduled_date r \<le> now}"
  by (auto simp: pending_instances_def)

lemma execute_pending_frame:
  assumes d: "distinct (map wi_instance_id (workflow_instances db))"
    and run: "execute_pending_workflows clk n db = (res, n', db')"
  shows "map wi_instance_id (workflow_instances db') = map wi_instance_id (workflow_instances db)"
    and "\<And>j. j < length (workflow_instances db) \<Longrightarrow>
           wi_status (workflow_instances db ! j) \<noteq> PENDING \<or>
           clk n < wi_scheduled_date (workflow_instances db ! j) \<Longrightarrow>
           workflow_instances db' ! j = workflow_instances db ! j"
proof -
  let ?ids = "map wi_instance_id (pending_instances (clk n) db)"
  have loop: "execute_loop clk ?ids \<lparr>executed = 0, failed = 0, skipped = 0, instances = []\<rparr> (n + 1) db
                = (res, n', db')"
    using run by (simp add: execute_pending_workflows_def)
  note fr = execute_loop_frame[OF loop]
  show "map wi_instance_id (workflow_instances db') = map wi_instance_id (workflow_instances db)"
    using fr by simp
  fix j assume j: "j < length (workflow_instances db)"
    and np: "wi_status (workflow_instances db ! j) \<noteq> PENDING \<or>
             clk n < wi_scheduled_date (workflow_instances db ! j)"
  have "wi_instance_id (workflow_instances db ! j) \<notin> set ?ids"
  proof
    assume "wi_instance_id (workflow_instances db ! j) \<in> set ?ids"
    then obtain r where r: "r \<in> set (workflow_instances db)" "wi_status r = PENDING"
        "wi_scheduled_date r \<le> clk n" "wi_instance_id r = wi_instance_id (workflow_instances db ! j)"
      by (auto simp: pending_instances_set)
    have "workflow_instances db ! j \<in> set (workflow_instances db)" using j by simp
    with d r have "r = workflow_instances db ! j" by (meson distinct_map inj_onD)
    with r np show False by auto
  qed
  with fr j show "workflow_instances db' ! j = workflow_instances db ! j" by simp
qed

lemma execute_runs_frame:
  assumes "distinct (map wi_instance_id (workflow_instances db))"
    and "execute_runs clk k n db = (m, db'')"
    and "j < length (workflow_instances db)"
    and "wi_status (workflow_instances db ! j) \<noteq> PENDING"
  shows "workflow_instances db'' ! j = workflow_instances db ! j"
  using assms
proof (induction k arbitrary: n db)
  case 0
  then show ?case by simp
next
  case (Suc k)
  obtain res n1 db1 where run: "execute_pending_workflows clk n db = (res, n1, db1)"
    by (metis prod_cases3)
  with Suc.prems(2) have rest: "execute_runs clk k n1 db1 = (m, db'')" by simp
  note f = execute_pending_frame[OF Suc.prems(1) run]
  have d1: "distinct (map wi_instance_id (workflow_instances db1))" using f(1) Suc.prems(1) by simp
  have len: "length (workflow_instances db1) = length (workflow_instances db)"
    using f(1) by (metis length_map)
  have same: "workflow_instances db1 ! j = workflow_instances db ! j"
    using f(2)[OF Suc.prems(3)] Suc.prems(4) by simp
  show ?case
    using Suc.IH[OF d1 rest] same len Suc.prems(3,4) by simp
qed

lemma execute_pending_selected:
  assumes run: "execute_pending_workflows clk n db = (res, n', db')"
  shows "map fst (instances res) = map wi_instance_id (pending_instances (clk n) db)"
proof -
  let ?ids = "map wi_instance_id (pending_instances (clk n) db)"
  have loop: "execute_loop clk ?ids \<lparr>executed = 0, failed = 0, skipped = 0, instances = []\<rparr> (n + 1) db
                = (res, n', db')"
    using run by (simp add: execute_pending_workflows_def)
  have "\<And>ids res0 n db. execute_loop clk ids res0 n db = (res, n', db') \<Longrightarrow>
          map fst (instances res) = map fst (instances res0) @ ids"
  proof -
    fix ids res0 n db
    show "execute_loop clk ids res0 n db = (res, n', db') \<Longrightarrow>
          map fst (instances res) = map fst (instances res0) @ ids"
      by (induction ids arbitrary: res0 n db) (auto split: prod.splits sum.splits)
  qed
  from this[OF loop] show ?thesis by simp
qed

lemma execute_pending_rows:
  assumes d: "distinct (map wi_instance_id (workflow_instances db))"
    and run: "execute_pending_workflows clk n db = (res, n', db')"
    and mem: "(iid, out) \<in> set (instances res)"
  obtains j n1 db1 n2 db2 where
    "j < length (workflow_instances db)"
    "wi_instance_id (workflow_instances db ! j) = iid"
    "wi_status (workflow_instances db ! j) = PENDING"
    "execute_workflow_instance clk iid n1 db1 = (out, n2, db2)"
    "distinct (map wi_instance_id (workflow_instances db1))"
    "length (workflow_instances db1) = length (workflow_instances db)"
    "workflow_steps db1 = workflow_steps db"
    "workflow_instances db1 ! j = workflow_instances db ! j"
    "workflow_instances db' ! j =
       workflow_instances (case out of Inl e \<Rightarrow> mark_instance_failed iid e db2 | Inr x \<Rightarrow> db2) ! j"
proof -
  let ?ids = "map wi_instance_id (pending_instances (clk n) db)"
  have loop: "execute_loop clk ?ids \<lparr>executed = 0, failed = 0, skipped = 0, instances = []\<rparr> (n + 1) db
                = (res, n', db')"
    using run by (simp add: execute_pending_workflows_def)
  from execute_loop_rows[OF loop pending_instances_distinct[OF d]]
  obtain new where new: "instances res = new" "map fst new = ?ids"
    and each: "\<forall>(iid, out) \<in> set new. \<exists>n1 db1 n2 db2.
          execute_workflow_instance clk iid n1 db1 = (out, n2, db2) \<and>
          map wi_instance_id (workflow_instances db1) = map wi_instance_id (workflow_instances db) \<and>
          workflow_steps db1 = workflow_steps db \<and>
          collection_workflows db1 = collection_workflows db \<and>
          (\<forall>j < length (workflow_instances db).
              wi_instance_id (workflow_instances db ! j) = iid \<longrightarrow>
              workflow_instances db1 ! j = workflow_instances db ! j \<and>
              workflow_instances db' ! j =
                workflow_instances
                  (case out of Inl e \<Rightarrow> mark_instance_failed iid e db2 | Inr x \<Rightarrow> db2) ! j)"
    by auto
  have memn: "(iid, out) \<in> set new" using mem new(1) by simp
  have ids: "iid \<in> set ?ids"
  proof -
    have "fst (iid, out) \<in> set (map fst new)" using memn by (metis image_eqI set_map)
    then show ?thesis using new(2) by simp
  qed
  from bspec[OF each memn] obtain n1 db1 n2 db2 where
    e: "execute_workflow_instance clk iid n1 db1 = (out, n2, db2)"
       "map wi_instance_id (workflow_instances db1) = map wi_instance_id (workflow_instances db)"
       "workflow_steps db1 = workflow_steps db"
       "\<forall>j < length (workflow_instances db).
              wi_instance_id (workflow_instances db ! j) = iid \<longrightarrow>
              workflow_instances db1 ! j = workflow_instances db ! j \<and>
              workflow_instances db' ! j =
                workflow_instances
                  (case out of Inl e \<Rightarrow> mark_instance_failed iid e db2 | Inr x \<Rightarrow> db2) ! j"
    by auto
  from ids obtain r where r: "r \<in> set (workflow_instances db)" "wi_status r = PENDING"
    "wi_instance_id r = iid"
    by (auto simp: pending_instances_set)
  then obtain j where j: "j < length (workflow_instances db)" "workflow_instances db ! j = r"
    by (meson in_set_conv_nth)
  show thesis
  proof (rule that[of j n1 db1 n2 db2])
    show "j < length (workflow_instances db)" by (rule j)
    show "wi_instance_id (workflow_instances db ! j) = iid" using j r by simp
    show "wi_status (workflow_instances db ! j) = PENDING" using j r by simp
    show "execute_workflow_instance clk iid n1 db1 = (out, n2, db2)" by (rule e)
    show "distinct (map wi_instance_id (workflow_instances db1))" using e(2) d by simp
    show "length (workflow_instances db1) = length (workflow_instances db)"
      using e(2) by (metis length_map)
    show "workflow_steps db1 = workflow_steps db" by (rule e)
    show "workflow_instances db1 ! j = workflow_instances db ! j" using e(4) j r by simp
    show "workflow_instances db' ! j =
       workflow_instances (case out of Inl e \<Rightarrow> mark_instance_failed iid e db2 | Inr x \<Rightarrow> db2) ! j"
      using e(4) j r by simp
  qed
qed

lemma exec_run:
  "execute_pending_workflows clock0 0 exec_db =
     (fst (execute_pending_workflows clock0 0 exec_db),
      fst (snd (execute_pending_workflows clock0 0 exec_db)), exec_db_after)"
  by (simp add: exec_db_after_def)

lemma exec_db_distinct: "distinct (map wi_instance_id (workflow_instances exec_db))"
  by code_simp

lemma exec_results:
  "instances (fst (execute_pending_workflows clock0 0 exec_db)) =
     [(WF 1 1 1699990001, Inr (Action_executed EMAIL_REMINDER 1700000000000000)),
      (WF 3 1 1699990002, Inr (Action_executed CREDIT_HOLD 1700259200000000)),
      (WF 1 2 1699990003, Inl TypeError)]"
  by code_simp

text \<open>
  C10. \<open>execute_pending_workflows\<close> selects exactly the instances whose status is PENDING
  and whose scheduled date is not after the clock reading of the query. Every other
  instance row, whatever its status, is the same after the run as before; and a row
  that is not PENDING (an ACTIVE one in particular, with steps left) is the same after any
  number of runs, so its remaining steps are never executed by this operation. Instance
  ids are unique (the primary key).
\<close>

theorem execute_pending_workflows_frame:
  assumes d: "distinct (map wi_instance_id (workflow_instances db))"
    and run: "execute_pending_workflows clk n db = (res, n', db')"
  shows "map fst (instances res) = map wi_instance_id (pending_instances (clk n) db) \<and>
         set (pending_instances (clk n) db) =
           {r \<in> set (workflow_instances db). wi_status r = PENDING \<and> wi_scheduled_date r \<le> clk n} \<and>
         length (workflow_instances db') = length (workflow_instances db) \<and>
         (\<forall>j < length (workflow_instances db).
            wi_status (workflow_instances db ! j) \<noteq> PENDING \<or>
            clk n < wi_scheduled_date (workflow_instances db ! j) \<longrightarrow>
            workflow_instances db' ! j = workflow_instances db ! j) \<and>
         (\<forall>k m db''. execute_runs clk k n db = (m, db'') \<longrightarrow>
            (\<forall>j < length (workflow_instances db).
               wi_status (workflow_instances db ! j) \<noteq> PENDING \<longrightarrow>
               workflow_instances db'' ! j = workflow_instances db ! j))"
proof (intro conjI allI impI)
  show "map fst (instances res) = map wi_instance_id (pending_instances (clk n) db)"
    by (rule execute_pending_selected[OF run])
  show "set (pending_instances (clk n) db) =
           {r \<in> set (workflow_instances db). wi_status r = PENDING \<and> wi_scheduled_date r \<le> clk n}"
    by (rule pending_instances_set)
  show "length (workflow_instances db') = length (workflow_instances db)"
    using execute_pending_frame(1)[OF d run] by (metis length_map)
next
  fix j assume "j < length (workflow_instances db)"
    "wi_status (workflow_instances db ! j) \<noteq> PENDING \<or>
            clk n < wi_scheduled_date (workflow_instances db ! j)"
  then show "workflow_instances db' ! j = workflow_instances db ! j"
    by (rule execute_pending_frame(2)[OF d run])
next
  fix k m db'' j
  assume "execute_runs clk k n db = (m, db'')" "j < length (workflow_instances db)"
    "wi_status (workflow_instances db ! j) \<noteq> PENDING"
  then show "workflow_instances db'' ! j = workflow_instances db ! j"
    by (rule execute_runs_frame[OF d])
qed

text \<open>
  On \<open>exec_db\<close> row 3 is ACTIVE and due, and the run leaves it as it is.
\<close>

theorem execute_pending_workflows_frame_witness:
  "distinct (map wi_instance_id (workflow_instances exec_db)) \<and>
   wi_status (workflow_instances exec_db ! 3) = ACTIVE \<and>
   wi_scheduled_date (workflow_instances exec_db ! 3) \<le> clock0 0 \<and>
   workflow_instances exec_db_after ! 3 = workflow_instances exec_db ! 3"
proof -
  have len: "3 < length (workflow_instances exec_db)" by code_simp
  have st: "wi_status (workflow_instances exec_db ! 3) = ACTIVE" by code_simp
  have due: "wi_scheduled_date (workflow_instances exec_db ! 3) \<le> clock0 0" by code_simp
  from execute_pending_workflows_frame[OF exec_db_distinct exec_run] len st
  have "workflow_instances exec_db_after ! 3 = workflow_instances exec_db ! 3" by simp
  with exec_db_distinct st due show ?thesis by simp
qed

text \<open>
  C3, as stated, fails. After a successful step the scheduled date is the clock reading
  plus the delay of the step that was just executed, not of the next step, and it is set
  also when the executed step was the last one. In \<open>exec_db\<close> under \<open>clock0\<close>, row 0
  executes step 1 of workflow 1 (delay 0; the next step has delay 7): its scheduled date
  becomes the reading itself, not the reading plus 7 days. Row 1 executes the only step of
  workflow 3 (delay 3): it becomes COMPLETED and its scheduled date is replaced by the
  reading plus 3 days.
\<close>

theorem scheduled_date_uses_executed_step_delay:
  "clock0 0 = 1700000000000000 \<and> clock0 1 = 1700000000000000 \<and> clock0 2 = 1700000000000000 \<and>
   workflow_steps exec_db = example_steps \<and>
   wi_status (workflow_instances exec_db ! 0) = PENDING \<and>
   wi_workflow_id (workflow_instances exec_db ! 0) = 1 \<and>
   wi_current_step (workflow_instances exec_db ! 0) = 0 \<and>
   ws_delay_days (example_steps ! 0) = 0 \<and> ws_delay_days (example_steps ! 1) = 7 \<and>
   instances (fst (execute_pending_workflows clock0 0 exec_db)) ! 0 =
     (WF 1 1 1699990001, Inr (Action_executed EMAIL_REMINDER 1700000000000000)) \<and>
   wi_current_step (workflow_instances exec_db_after ! 0) = 1 \<and>
   wi_status (workflow_instances exec_db_after ! 0) = ACTIVE \<and>
   wi_scheduled_date (workflow_instances exec_db_after ! 0) = 1700000000000000 \<and>
   wi_scheduled_date (workflow_instances exec_db_after ! 0) \<noteq> 1700000000000000 + timedelta_days 7 \<and>
   wi_status (workflow_instances exec_db ! 1) = PENDING \<and>
   wi_scheduled_date (workflow_instances exec_db ! 1) = 1699990002000000 \<and>
   max_step_order 3 exec_db = Some 1 \<and>
   wi_current_step (workflow_instances exec_db_after ! 1) = 1 \<and>
   wi_status (workflow_instances exec_db_after ! 1) = COMPLETED \<and>
   wi_scheduled_date (workflow_instances exec_db_after ! 1) = 1700000000000000 + timedelta_days 3 \<and>
   wi_scheduled_date (workflow_instances exec_db_after ! 1) \<noteq>
     wi_scheduled_date (workflow_instances exec_db ! 1)"
  unfolding exec_db_after_def by code_simp

text \<open>
  C3, amended. When a run of \<open>execute_pending_workflows\<close> executes a step of an instance and
  the action succeeds, the instance's row is the old row with the current step
  incremented by one, the scheduled date set to a clock reading plus the delay days of the
  executed step (also when that step was the last one), the last action date set to the
  next reading, and the status set to COMPLETED when the new current step equals the
  largest step order of the definition and to ACTIVE otherwise. Nothing else in the row
  changes.
\<close>

theorem step_success_advances:
  assumes d: "distinct (map wi_instance_id (workflow_instances db))"
    and run: "execute_pending_workflows clk n db = (res, n', db')"
    and mem: "(iid, Inr (Action_executed a t)) \<in> set (instances res)"
  shows "\<exists>j < length (workflow_instances db). \<exists>step m.
           wi_instance_id (workflow_instances db ! j) = iid \<and>
           List.find (step_query (workflow_instances db ! j)) (workflow_steps db) = Some step \<and>
           a = ws_action_type step \<and>
           t = clk m + timedelta_days (ws_delay_days step) \<and>
           workflow_instances db' ! j =
             (workflow_instances db ! j)
               \<lparr>wi_current_step := wi_current_step (workflow_instances db ! j) + 1,
                wi_scheduled_date := t,
                wi_last_action_date := Some (clk (m + 1)),
                wi_status :=
                  (if Some (wi_current_step (workflow_instances db ! j) + 1) =
                        max_step_order (wi_workflow_id (workflow_instances db ! j)) db
                   then COMPLETED else ACTIVE)\<rparr>"
proof (rule execute_pending_rows[OF d run mem])
  fix j n1 db1 n2 db2
  assume j: "j < length (workflow_instances db)"
      "wi_instance_id (workflow_instances db ! j) = iid"
    and ex: "execute_workflow_instance clk iid n1 db1 = (Inr (Action_executed a t), n2, db2)"
    and d1: "distinct (map wi_instance_id (workflow_instances db1))"
    and len1: "length (workflow_instances db1) = length (workflow_instances db)"
    and steps1: "workflow_steps db1 = workflow_steps db"
    and row1: "workflow_instances db1 ! j = workflow_instances db ! j"
    and row0: "workflow_instances db' ! j =
       workflow_instances (case Inr (Action_executed a t) of
          Inl e \<Rightarrow> mark_instance_failed iid e db2 | Inr x \<Rightarrow> db2) ! j"
  have row': "workflow_instances db' ! j = workflow_instances db2 ! j"
    using row0 by simp
  let ?r = "workflow_instances db ! j"
  have rin: "workflow_instances db1 ! j \<in> set (workflow_instances db1)" using j len1 by simp
  from ex show ?thesis
  proof (cases rule: execute_workflow_instance_cases)
    case (action_done wi cw rest step res0 m dba)
    have "wi = workflow_instances db1 ! j"
      using instance_data_row[OF d1 rin, of wi cw rest] action_done(1) row1 j(2) by simp
    then have wi: "wi = ?r" using row1 by simp
    note fr = execute_action_frame[OF action_done(3)]
    have ms: "max_step_order (wi_workflow_id wi) db1 = max_step_order (wi_workflow_id wi) db"
      using steps1 by (rule max_step_order_cong)
    have "workflow_instances db2 ! j =
            (workflow_instances db1 ! j)
               \<lparr>wi_current_step := wi_current_step wi + 1,
                wi_scheduled_date := clk m + timedelta_days (ws_delay_days step),
                wi_last_action_date := Some (clk (m + 1)),
                wi_status := (if Some (wi_current_step wi + 1) = max_step_order (wi_workflow_id wi) db1
                              then COMPLETED else ACTIVE)\<rparr>"
      unfolding action_done(6) using fr j len1 row1 by (simp add: update_instance_simps)
    with row' row1 wi ms action_done(2,4) steps1 j have
      "wi_instance_id ?r = iid \<and>
           List.find (step_query ?r) (workflow_steps db) = Some step \<and>
           a = ws_action_type step \<and>
           t = clk m + timedelta_days (ws_delay_days step) \<and>
           workflow_instances db' ! j =
             ?r\<lparr>wi_current_step := wi_current_step ?r + 1,
                wi_scheduled_date := t,
                wi_last_action_date := Some (clk (m + 1)),
                wi_status :=
                  (if Some (wi_current_step ?r + 1) = max_step_order (wi_workflow_id ?r) db
                   then COMPLETED else ACTIVE)\<rparr>"
      by simp
    then have "\<exists>step m. wi_instance_id ?r = iid \<and>
           List.find (step_query ?r) (workflow_steps db) = Some step \<and>
           a = ws_action_type step \<and>
           t = clk m + timedelta_days (ws_delay_days step) \<and>
           workflow_instances db' ! j =
             ?r\<lparr>wi_current_step := wi_current_step ?r + 1,
                wi_scheduled_date := t,
                wi_last_action_date := Some (clk (m + 1)),
                wi_status :=
                  (if Some (wi_current_step ?r + 1) = max_step_order (wi_workflow_id ?r) db
                   then COMPLETED else ACTIVE)\<rparr>"
      by blast
    with j(1) show ?thesis by blast
  qed simp_all
qed

text \<open>
  On \<open>exec_db\<close> the first instance executes its first step successfully.
\<close>

theorem step_success_advances_witness:
  "distinct (map wi_instance_id (workflow_instances exec_db)) \<and>
   (WF 1 1 1699990001, Inr (Action_executed EMAIL_REMINDER 1700000000000000))
      \<in> set (instances (fst (execute_pending_workflows clock0 0 exec_db))) \<and>
   (\<exists>j < length (workflow_instances exec_db). \<exists>step m.
      wi_instance_id (workflow_instances exec_db ! j) = WF 1 1 1699990001 \<and>
      List.find (step_query (workflow_instances exec_db ! j)) (workflow_steps exec_db) = Some step \<and>
      EMAIL_REMINDER = ws_action_type step \<and>
      1700000000000000 = clock0 m + timedelta_days (ws_delay_days step) \<and>
      workflow_instances exec_db_after ! j =
        (workflow_instances exec_db ! j)
          \<lparr>wi_current_step := wi_current_step (workflow_instances exec_db ! j) + 1,
           wi_scheduled_date := 1700000000000000,
           wi_last_action_date := Some (clock0 (m + 1)),
           wi_status :=
             (if Some (wi_current_step (workflow_instances exec_db ! j) + 1) =
                   max_step_order (wi_workflow_id (workflow_instances exec_db ! j)) exec_db
              then COMPLETED else ACTIVE)\<rparr>)"
proof -
  have mem: "(WF 1 1 1699990001, Inr (Action_executed EMAIL_REMINDER 1700000000000000))
      \<in> set (instances (fst (execute_pending_workflows clock0 0 exec_db)))"
    unfolding exec_results by simp
  from step_success_advances[OF exec_db_distinct exec_run mem] exec_db_distinct mem
  show ?thesis by blast
qed

text \<open>
  C4, as stated, fails: the retry count is not incremented. In \<open>exec_db\<close> row 2 belongs to
  a customer that does not exist, so its e-mail step raises; the row becomes FAILED with
  the failure reason stored, and its retry count is still 0.
\<close>

theorem failure_keeps_retry_count:
  "customers exec_db = [acme] \<and> c_customer_id acme = 1 \<and>
   wi_status (workflow_instances exec_db ! 2) = PENDING \<and>
   wi_customer_id (workflow_instances exec_db ! 2) = 2 \<and>
   wi_retry_count (workflow_instances exec_db ! 2) = 0 \<and>
   wi_scheduled_date (workflow_instances exec_db ! 2) \<le> clock0 0 \<and>
   instances (fst (execute_pending_workflows clock0 0 exec_db)) ! 2 =
     (WF 1 2 1699990003, Inl TypeError) \<and>
   wi_status (workflow_instances exec_db_after ! 2) = FAILED \<and>
   wi_failure_reason (workflow_instances exec_db_after ! 2) = Some TypeError \<and>
   wi_retry_count (workflow_instances exec_db_after ! 2) = 0"
  unfolding exec_db_after_def by code_simp

text \<open>
  C4, amended. When the execution of an instance raises an error during a run of
  \<open>execute_pending_workflows\<close>, the instance (which was PENDING) gets status FAILED and the
  error as failure reason; every other column, the retry count included, keeps its value.
  No later run, under any clock, changes the row again: a FAILED instance is never
  selected, so the engine never retries it.
\<close>

theorem failed_instance_marked:
  assumes d: "distinct (map wi_instance_id (workflow_instances db))"
    and run: "execute_pending_workflows clk n db = (res, n', db')"
    and mem: "(iid, Inl e) \<in> set (instances res)"
  shows "\<exists>j < length (workflow_instances db).
           wi_instance_id (workflow_instances db ! j) = iid \<and>
           wi_status (workflow_instances db ! j) = PENDING \<and>
           workflow_instances db' ! j =
             (workflow_instances db ! j)\<lparr>wi_status := FAILED, wi_failure_reason := Some e\<rparr> \<and>
           wi_retry_count (workflow_instances db' ! j) = wi_retry_count (workflow_instances db ! j) \<and>
           (\<forall>clk' k m n'' db''. execute_runs clk' k m db' = (n'', db'') \<longrightarrow>
              workflow_instances db'' ! j = workflow_instances db' ! j)"
proof (rule execute_pending_rows[OF d run mem])
  fix j n1 db1 n2 db2
  assume j: "j < length (workflow_instances db)"
      "wi_instance_id (workflow_instances db ! j) = iid"
      "wi_status (workflow_instances db ! j) = PENDING"
    and ex: "execute_workflow_instance clk iid n1 db1 = (Inl e, n2, db2)"
    and len1: "length (workflow_instances db1) = length (workflow_instances db)"
    and row1: "workflow_instances db1 ! j = workflow_instances db ! j"
    and row0: "workflow_instances db' ! j =
       workflow_instances (case Inl e of Inl e \<Rightarrow> mark_instance_failed iid e db2 | Inr x \<Rightarrow> db2) ! j"
  have row': "workflow_instances db' ! j = workflow_instances (mark_instance_failed iid e db2) ! j"
    using row0 by simp
  have "db2 = db1" using ex by (cases rule: execute_workflow_instance_cases) simp_all
  with row' row1 j len1 have
    marked: "workflow_instances db' ! j =
             (workflow_instances db ! j)\<lparr>wi_status := FAILED, wi_failure_reason := Some e\<rparr>"
    by (simp add: mark_instance_failed_simps)
  note f = execute_pending_frame(1)[OF d run]
  have d': "distinct (map wi_instance_id (workflow_instances db'))" using f d by simp
  have len': "length (workflow_instances db') = length (workflow_instances db)"
    using f by (metis length_map)
  have later: "\<forall>clk' k m n'' db''. execute_runs clk' k m db' = (n'', db'') \<longrightarrow>
              workflow_instances db'' ! j = workflow_instances db' ! j"
    using execute_runs_frame[OF d'] j(1) len' marked by simp
  show ?thesis
    using j marked later by (intro exI[of _ j]) simp
qed

text \<open>
  On \<open>exec_db\<close> the third instance fails and two further runs leave it alone.
\<close>

theorem failed_instance_marked_witness:
  "distinct (map wi_instance_id (workflow_instances exec_db)) \<and>
   (WF 1 2 1699990003, Inl TypeError)
      \<in> set (instances (fst (execute_pending_workflows clock0 0 exec_db))) \<and>
   (\<exists>j < length (workflow_instances exec_db).
      wi_instance_id (workflow_instances exec_db ! j) = WF 1 2 1699990003 \<and>
      wi_status (workflow_instances exec_db ! j) = PENDING \<and>
      workflow_instances exec_db_after ! j =
        (workflow_instances exec_db ! j)\<lparr>wi_status := FAILED, wi_failure_reason := Some TypeError\<rparr> \<and>
      wi_retry_count (workflow_instances exec_db_after ! j) =
        wi_retry_count (workflow_instances exec_db ! j) \<and>
      workflow_instances (snd (execute_runs clock0 2 7 exec_db_after)) ! j =
        workflow_instances exec_db_after ! j)"
proof -
  have mem: "(WF 1 2 1699990003, Inl TypeError)
      \<in> set (instances (fst (execute_pending_workflows clock0 0 exec_db)))"
    unfolding exec_results by simp
  have runs: "execute_runs clock0 2 7 exec_db_after =
     (fst (execute_runs clock0 2 7 exec_db_after), snd (execute_runs clock0 2 7 exec_db_after))"
    by simp
  from failed_instance_marked[OF exec_db_distinct exec_run mem] obtain j where
    j: "j < length (workflow_instances exec_db)"
      "wi_instance_id (workflow_instances exec_db ! j) = WF 1 2 1699990003"
      "wi_status (workflow_instances exec_db ! j) = PENDING"
      "workflow_instances exec_db_after ! j =
        (workflow_instances exec_db ! j)\<lparr>wi_status := FAILED, wi_failure_reason := Some TypeError\<rparr>"
      "wi_retry_count (workflow_instances exec_db_after ! j) =
        wi_retry_count (workflow_instances exec_db ! j)"
    and later: "\<forall>clk' k m n'' db''. execute_runs clk' k m exec_db_after = (n'', db'') \<longrightarrow>
              workflow_instances db'' ! j = workflow_instances exec_db_after ! j"
    by blast
  from later runs have "workflow_instances (snd (execute_runs clock0 2 7 exec_db_after)) ! j =
        workflow_instances exec_db_after ! j" by blast
  with j exec_db_distinct mem show ?thesis by blast
qed

text \<open>
  C5. The code sets the status to COMPLETED when the final step succeeds, and no later run
  selects the instance, but it does not set the completed date on that path: only
  \<open>mark_instance_completed\<close>, reached when no next step is found, writes it. In \<open>exec_db\<close>
  row 1 is PENDING at the only step of workflow 3; after the run it is COMPLETED with the
  completed date still \<open>None\<close>, and three further runs do not set it either.
\<close>

theorem final_step_leaves_completed_date_unset:
  "wi_status (workflow_instances exec_db ! 1) = PENDING \<and>
   wi_workflow_id (workflow_instances exec_db ! 1) = 3 \<and>
   wi_current_step (workflow_instances exec_db ! 1) = 0 \<and>
   wi_scheduled_date (workflow_instances exec_db ! 1) \<le> clock0 0 \<and>
   max_step_order 3 exec_db = Some 1 \<and>
   instances (fst (execute_pending_workflows clock0 0 exec_db)) ! 1 =
     (WF 3 1 1699990002, Inr (Action_executed CREDIT_HOLD 1700259200000000)) \<and>
   wi_current_step (workflow_instances exec_db_after ! 1) = 1 \<and>
   wi_status (workflow_instances exec_db_after ! 1) = COMPLETED \<and>
   wi_completed_date (workflow_instances exec_db_after ! 1) = None \<and>
   wi_completed_date (workflow_instances (snd (execute_runs clock0 3 7 exec_db_after)) ! 1) = None"
  unfolding exec_db_after_def by code_simp

section \<open>Payment promises: proofs\<close>

lemma update_invoice_collection_frame:
  "payment_promises (update_invoice_collection i s d db) = payment_promises db"
  "payments (update_invoice_collection i s d db) = payments db"
  "payment_applications (update_invoice_collection i s d db) = payment_applications db"
  "customers (update_invoice_collection i s d db) = customers db"
  by (simp_all add: update_invoice_collection_def)

lemma add_activity_frame:
  "payment_promises (add_activity a db) = payment_promises db"
  "payments (add_activity a db) = payments db"
  "payment_applications (add_activity a db) = payment_applications db"
  "customers (add_activity a db) = customers db"
  "invoices (add_activity a db) = invoices db"
  by (simp_all add: add_activity_def)

lemma update_promise_status_cases:
  assumes "update_promise_status fa clk pid st amt ds n db = (out, n', db')"
  obtains (rejected) e where "out = Inl e" "db' = db" "n' = n"
      "List.find (\<lambda>p. pp_promise_id p = pid) (payment_promises db) = None \<or>
       ds = Some Bad_date \<or>
       (\<exists>p. List.find (\<lambda>p. pp_promise_id p = pid) (payment_promises db) = Some p \<and>
            terminal (pp_status p)) \<or>
       ((st = KEPT \<or> st = PARTIALLY_KEPT) \<and> amt \<le> 0)"
  | (updated) r p and f :: "payment_promise \<Rightarrow> payment_promise" where "out = Inr r"
      "List.find (\<lambda>p. pp_promise_id p = pid) (payment_promises db) = Some p"
      "\<not> terminal (pp_status p)"
      "(st = KEPT \<or> st = PARTIALLY_KEPT) \<longrightarrow> amt > 0"
      "ur_new_status r =
         (if st = KEPT \<and> \<bar>fa_sub fa amt (pp_promised_amount p)\<bar> > fa_mul fa (pp_promised_amount p) py_0_01 \<and>
             amt < fa_mul fa (pp_promised_amount p) py_0_9 then PARTIALLY_KEPT else st)"
      "\<forall>q. pp_promise_id (f q) = pp_promise_id q \<and> pp_status (f q) = ur_new_status r"
      "payment_promises db' =
         map (\<lambda>q. if pp_promise_id q = pid then f q else q) (payment_promises db)"
      "payments db' = payments db" "payment_applications db' = payment_applications db"
proof (cases "List.find (\<lambda>p. pp_promise_id p = pid) (payment_promises db)")
  case None
  with assms show thesis
    by (intro rejected[of Promise_not_found]) (simp_all add: update_promise_status_def)
next
  case (Some p)
  show thesis
  proof (cases "ds = Some Bad_date \<or> terminal (pp_status p) \<or>
                ((st = KEPT \<or> st = PARTIALLY_KEPT) \<and> amt \<le> 0)")
    case True
    with assms Some obtain e where "out = Inl e" "db' = db" "n' = n"
      by (auto simp: update_promise_status_def Let_def terminal_def split: if_splits)
    then show thesis using True Some by (intro rejected[of e]) auto
  next
    case False
    define st' where "st' = (if st = KEPT \<and> \<bar>fa_sub fa amt (pp_promised_amount p)\<bar> > fa_mul fa (pp_promised_amount p) py_0_01 \<and>
             amt < fa_mul fa (pp_promised_amount p) py_0_9 then PARTIALLY_KEPT else st)"
    define esc where "esc = (st' = BROKEN \<and>
        broken_count (date_of (clk n)) (pp_customer_id p) db \<ge> escalation_threshold - 1)"
    define f :: "payment_promise \<Rightarrow> payment_promise" where "f = (\<lambda>q. q\<lparr>pp_status := st',
        pp_actual_payment_date := (case ds of Some (Good_date d) \<Rightarrow> Some d | _ \<Rightarrow> None),
        pp_actual_payment_amount := Some amt,
        pp_escalation_required := esc, pp_follow_up_completed := True\<rparr>)"
    from assms Some False have
      o: "out = Inr \<lparr>ur_promise_id = pid, ur_old_status = pp_status p, ur_new_status = st',
                    ur_escalation_required = esc\<rparr>"
      and pr: "payment_promises db' = map (\<lambda>q. if pp_promise_id q = pid then f q else q) (payment_promises db)"
      and pay: "payments db' = payments db" "payment_applications db' = payment_applications db"
      unfolding update_promise_status_def Let_def terminal_def st'_def esc_def f_def
        create_promise_activity_def
      by (auto simp: update_invoice_collection_frame add_activity_frame split: option.splits)
    show thesis
    proof (rule updated[OF o Some])
      show "\<not> terminal (pp_status p)" using False by simp
      show "(st = KEPT \<or> st = PARTIALLY_KEPT) \<longrightarrow> amt > 0" using False by auto
      show "ur_new_status \<lparr>ur_promise_id = pid, ur_old_status = pp_status p, ur_new_status = st',
                    ur_escalation_required = esc\<rparr> =
         (if st = KEPT \<and> \<bar>fa_sub fa amt (pp_promised_amount p)\<bar> > fa_mul fa (pp_promised_amount p) py_0_01 \<and>
             amt < fa_mul fa (pp_promised_amount p) py_0_9 then PARTIALLY_KEPT else st)"
        by (simp add: st'_def)
      show "\<forall>q. pp_promise_id (f q) = pp_promise_id q \<and> pp_status (f q) = ur_new_status \<lparr>ur_promise_id = pid, ur_old_status = pp_status p, ur_new_status = st',
                    ur_escalation_required = esc\<rparr>"
        by (simp add: f_def)
      show "payment_promises db' = map (\<lambda>q. if pp_promise_id q = pid then f q else q) (payment_promises db)"
        by (rule pr)
      show "payments db' = payments db" "payment_applications db' = payment_applications db"
        by (rule pay)+
    qed
  qed
qed


lemma find_distinct:
  assumes "distinct (map g xs)" and "x \<in> set xs"
  shows "List.find (\<lambda>y. g y = g x) xs = Some x"
  using assms
proof (induction xs)
  case Nil
  then show ?case by simp
next
  case (Cons a xs)
  then show ?case by (auto simp: image_iff)
qed

lemma process_promise_frame:
  assumes "process_promise fa clk row s n db = (s', n', db')"
  shows "\<exists>f :: payment_promise \<Rightarrow> payment_promise.
           (\<forall>q. pp_promise_id (f q) = pp_promise_id q) \<and>
           payment_promises db' =
             map (\<lambda>q. if pp_promise_id q = pp_promise_id row then f q else q) (payment_promises db)"
    and "payments db' = payments db"
    and "payment_applications db' = payment_applications db"
proof -
  define st amt ds where "st = (if (case linked_payments fa db row of None \<Rightarrow> 0 | Some s \<Rightarrow> s) \<ge> fa_mul fa (pp_promised_amount row) py_0_99 then KEPT else PARTIALLY_KEPT)"
    and "amt = (case linked_payments fa db row of None \<Rightarrow> (0::real) | Some s \<Rightarrow> s)"
    and "ds = Some (Good_date (pp_promised_payment_date row))"
  from assms have
    "(\<exists>out. update_promise_status fa clk (pp_promise_id row) st amt ds n db = (out, n', db')) \<or>
     (\<exists>out. update_promise_status fa clk (pp_promise_id row) BROKEN 0 None n db = (out, n', db'))"
    unfolding process_promise_def Let_def st_def amt_def ds_def
    by (auto split: if_splits prod.splits sum.splits)
  then obtain st2 amt2 ds2 out where
    u: "update_promise_status fa clk (pp_promise_id row) st2 amt2 ds2 n db = (out, n', db')"
    by blast
  have "(\<exists>f :: payment_promise \<Rightarrow> payment_promise.
           (\<forall>q. pp_promise_id (f q) = pp_promise_id q) \<and>
           payment_promises db' =
             map (\<lambda>q. if pp_promise_id q = pp_promise_id row then f q else q) (payment_promises db)) \<and>
        payments db' = payments db \<and> payment_applications db' = payment_applications db"
    using u
  proof (cases rule: update_promise_status_cases)
    case (rejected e)
    then show ?thesis by (intro conjI exI[of _ "\<lambda>q. q"]) (simp_all add: map_idI)
  next
    case (updated r p f)
    then show ?thesis by (intro conjI exI[of _ f]) simp_all
  qed
  then show "\<exists>f :: payment_promise \<Rightarrow> payment_promise.
           (\<forall>q. pp_promise_id (f q) = pp_promise_id q) \<and>
           payment_promises db' =
             map (\<lambda>q. if pp_promise_id q = pp_promise_id row then f q else q) (payment_promises db)"
    and "payments db' = payments db"
    and "payment_applications db' = payment_applications db"
    by blast+
qed

lemma process_promise_rows:
  assumes "process_promise fa clk row s n db = (s', n', db')"
  shows "map pp_promise_id (payment_promises db') = map pp_promise_id (payment_promises db)"
    and "\<And>j. j < length (payment_promises db) \<Longrightarrow>
           pp_promise_id (payment_promises db ! j) \<noteq> pp_promise_id row \<Longrightarrow>
           payment_promises db' ! j = payment_promises db ! j"
proof -
  from process_promise_frame(1)[OF assms] obtain f :: "payment_promise \<Rightarrow> payment_promise" where
    f: "\<forall>q. pp_promise_id (f q) = pp_promise_id q"
       "payment_promises db' =
             map (\<lambda>q. if pp_promise_id q = pp_promise_id row then f q else q) (payment_promises db)"
    by blast
  show "map pp_promise_id (payment_promises db') = map pp_promise_id (payment_promises db)"
    using f by auto
  show "\<And>j. j < length (payment_promises db) \<Longrightarrow>
           pp_promise_id (payment_promises db ! j) \<noteq> pp_promise_id row \<Longrightarrow>
           payment_promises db' ! j = payment_promises db ! j"
    using f by auto
qed

lemma process_loop_frame:
  assumes "process_loop fa clk rows s n db = (s', n', db')"
  shows "map pp_promise_id (payment_promises db') = map pp_promise_id (payment_promises db) \<and>
         payments db' = payments db \<and>
         payment_applications db' = payment_applications db \<and>
         (\<forall>j < length (payment_promises db).
            pp_promise_id (payment_promises db ! j) \<notin> pp_promise_id ` set rows \<longrightarrow>
            payment_promises db' ! j = payment_promises db ! j)"
  using assms
proof (induction rows arbitrary: s n db)
  case Nil
  then show ?case by simp
next
  case (Cons row rows)
  obtain s1 n1 db1 where st: "process_promise fa clk row s n db = (s1, n1, db1)"
    by (metis prod_cases3)
  with Cons.prems have rest: "process_loop fa clk rows s1 n1 db1 = (s', n', db')" by simp
  note ih = Cons.IH[OF rest]
  note fr = process_promise_frame(2,3)[OF st]
  note rw = process_promise_rows[OF st]
  have len: "length (payment_promises db1) = length (payment_promises db)"
    using rw(1) by (metis length_map)
  have ids: "\<And>j. j < length (payment_promises db) \<Longrightarrow>
      pp_promise_id (payment_promises db1 ! j) = pp_promise_id (payment_promises db ! j)"
    using rw(1) len by (metis nth_map)
  show ?case
  proof (intro conjI allI impI)
    show "map pp_promise_id (payment_promises db') = map pp_promise_id (payment_promises db)"
      using ih rw(1) by simp
    show "payments db' = payments db" using ih fr by simp
    show "payment_applications db' = payment_applications db" using ih fr by simp
  next
    fix j assume j: "j < length (payment_promises db)"
      and nin: "pp_promise_id (payment_promises db ! j) \<notin> pp_promise_id ` set (row # rows)"
    then have "payment_promises db1 ! j = payment_promises db ! j" using rw(2) by simp
    moreover have "payment_promises db' ! j = payment_promises db1 ! j"
      using ih j nin len ids by simp
    ultimately show "payment_promises db' ! j = payment_promises db ! j" by simp
  qed
qed









lemma promise_db_distinct: "distinct (map pp_promise_id (payment_promises promise_db))"
  by code_simp




text \<open>
  C7. Once a promise is KEPT, BROKEN or CANCELLED, \<open>update_promise_status\<close> returns an
  error for every requested status, amount and date and leaves the database as it is;
  \<open>process_overdue_promises\<close> never selects the promise and leaves its row as it is.
  Promise ids are unique (the primary key).
\<close>

theorem terminal_promise_is_immutable:
  assumes d: "distinct (map pp_promise_id (payment_promises db))"
    and j: "j < length (payment_promises db)"
    and t: "terminal (pp_status (payment_promises db ! j))"
  shows "(\<forall>fa clk st amt ds n. \<exists>e.
            update_promise_status fa clk (pp_promise_id (payment_promises db ! j)) st amt ds n db
              = (Inl e, n, db)) \<and>
         (\<forall>g. payment_promises db ! j \<notin> set (overdue_promises g db)) \<and>
         (\<forall>fa clk n. payment_promises (snd (snd (process_overdue_promises fa clk n db))) ! j
              = payment_promises db ! j)"
proof (intro conjI allI)
  let ?row = "payment_promises db ! j"
  have rin: "?row \<in> set (payment_promises db)" using j by simp
  have fnd: "List.find (\<lambda>p. pp_promise_id p = pp_promise_id ?row) (payment_promises db) = Some ?row"
    by (rule find_distinct[OF d rin])
  have na: "pp_status ?row \<noteq> P_ACTIVE" using t by (auto simp: terminal_def)
  fix fa clk st amt ds n
  obtain out n' db' where u: "update_promise_status fa clk (pp_promise_id ?row) st amt ds n db = (out, n', db')"
    by (metis prod_cases3)
  from u show "\<exists>e. update_promise_status fa clk (pp_promise_id ?row) st amt ds n db = (Inl e, n, db)"
  proof (cases rule: update_promise_status_cases)
    case (rejected e)
    with u show ?thesis by simp
  next
    case (updated r p f)
    with fnd t have False by simp
    then show ?thesis ..
  qed
  fix g
  show "?row \<notin> set (overdue_promises g db)" using na by (simp add: overdue_promises_def)
  obtain s n' db' where run: "process_overdue_promises fa clk n db = (s, n', db')"
    by (metis prod_cases3)
  let ?g = "date_of (clk n) - grace_period_days"
  let ?rows = "overdue_promises ?g db"
  have loop: "process_loop fa clk ?rows
      \<lparr>total_overdue = length ?rows, processed_count = 0, escalated_count = 0, results = []\<rparr>
      (n + 1) db = (s, n', db')"
    using run by (simp add: process_overdue_promises_def Let_def)
  have "pp_promise_id ?row \<notin> pp_promise_id ` set ?rows"
  proof
    assume "pp_promise_id ?row \<in> pp_promise_id ` set ?rows"
    then obtain r where r: "r \<in> set (payment_promises db)" "pp_status r = P_ACTIVE"
      "pp_promise_id r = pp_promise_id ?row"
      by (auto simp: overdue_promises_def)
    with d rin have "r = ?row" by (meson distinct_map inj_onD)
    with r na show False by simp
  qed
  with process_loop_frame[OF loop] j have "payment_promises db' ! j = ?row" by simp
  then show "payment_promises (snd (snd (process_overdue_promises fa clk n db))) ! j = ?row"
    using run by simp
qed

text \<open>
  On \<open>promise_db\<close> the KEPT promise 2 cannot be cancelled and the reconciliation leaves it
  alone.
\<close>

theorem terminal_promise_is_immutable_witness:
  "distinct (map pp_promise_id (payment_promises promise_db)) \<and>
   pp_status (payment_promises promise_db ! 1) = KEPT \<and>
   pp_promise_id (payment_promises promise_db ! 1) = 2 \<and>
   (\<exists>e. update_promise_status ieee_double clock0 2 P_CANCELLED 0 None 0 promise_db = (Inl e, 0, promise_db)) \<and>
   payment_promises promise_db_after ! 1 = payment_promises promise_db ! 1"
proof -
  have j: "1 < length (payment_promises promise_db)" by code_simp
  have k: "pp_status (payment_promises promise_db ! 1) = KEPT" by code_simp
  then have t: "terminal (pp_status (payment_promises promise_db ! 1))" by (simp add: terminal_def)
  have i: "pp_promise_id (payment_promises promise_db ! 1) = 2" by code_simp
  note th = terminal_promise_is_immutable[OF promise_db_distinct j t]
  from th have "\<exists>e. update_promise_status ieee_double clock0 (pp_promise_id (payment_promises promise_db ! 1))
      P_CANCELLED 0 None 0 promise_db = (Inl e, 0, promise_db)" by blast
  moreover from th have "payment_promises promise_db_after ! 1 = payment_promises promise_db ! 1"
    unfolding promise_db_after_def by blast
  ultimately show ?thesis using promise_db_distinct k i by simp
qed

lemma store_promise_result:
  "\<exists>r n' a. store_promise clk cid amt d ivo n db = (Inr r, n', a) \<and>
     payment_promises a = payment_promises db @
       [\<lparr>pp_promise_id = next_promise_id db, pp_customer_id = cid, pp_invoice_id = ivo,
         pp_promise_date = date_of (clk n), pp_promised_amount = amt,
         pp_promised_payment_date = d, pp_status = P_ACTIVE,
         pp_actual_payment_date = None, pp_actual_payment_amount = None,
         pp_follow_up_date = Some (d - 1), pp_follow_up_completed = False,
         pp_escalation_required = False\<rparr>] \<and>
     cr_promise_id r = next_promise_id db \<and> cr_follow_up_date r = d - 1 \<and>
     customers a = customers db \<and> map i_invoice_id (invoices a) = map i_invoice_id (invoices db) \<and>
     map i_outstanding_amount (invoices a) = map i_outstanding_amount (invoices db)"
  unfolding store_promise_def Let_def create_follow_up_activity_def follow_up_lead_time_def
  by (auto simp: add_activity_def update_invoice_collection_def comp_def split: option.splits)

text \<open>
  C8. \<open>create_payment_promise\<close> returns an error, and then the database is unchanged, for
  a promised amount that is not positive, for a promised date not after the day of the
  call, for a customer that does not exist, for a linked invoice (an invoice id that is
  given and not 0, as the source tests it) that does not exist for this customer with a
  positive outstanding amount, and for a promised amount above the outstanding amount of
  the linked invoice. On success the new promise is appended with status ACTIVE and a
  follow-up date one day before the promised date. Invoice ids are unique (the primary
  key).
\<close>

theorem create_payment_promise_validates:
  assumes di: "distinct (map i_invoice_id (invoices db))"
    and run: "create_payment_promise clk customer_id amount ds invoice_id n db = (out, n', db')"
  shows "(\<forall>e. out = Inl e \<longrightarrow> db' = db) \<and>
         (amount \<le> 0 \<longrightarrow> out = Inl Amount_not_positive) \<and>
         (\<forall>d. ds = Good_date d \<and> d \<le> date_of (clk n) \<longrightarrow> (\<exists>e. out = Inl e)) \<and>
         (customer_id \<notin> c_customer_id ` set (customers db) \<longrightarrow> (\<exists>e. out = Inl e)) \<and>
         (truthy_int invoice_id \<and>
          (\<forall>i \<in> set (invoices db). Some (i_invoice_id i) = invoice_id \<longrightarrow>
             i_outstanding_amount i \<le> 0 \<or> i_customer_id i \<noteq> customer_id) \<longrightarrow> (\<exists>e. out = Inl e)) \<and>
         (truthy_int invoice_id \<and>
          (\<exists>i \<in> set (invoices db). Some (i_invoice_id i) = invoice_id \<and>
             amount > i_outstanding_amount i) \<longrightarrow> (\<exists>e. out = Inl e)) \<and>
         (\<forall>r. out = Inr r \<longrightarrow>
            (\<exists>d. ds = Good_date d \<and>
               payment_promises db' = payment_promises db @
                 [\<lparr>pp_promise_id = cr_promise_id r, pp_customer_id = customer_id,
                   pp_invoice_id = invoice_id, pp_promise_date = date_of (clk (n + 1)),
                   pp_promised_amount = amount, pp_promised_payment_date = d,
                   pp_status = P_ACTIVE, pp_actual_payment_date = None,
                   pp_actual_payment_amount = None, pp_follow_up_date = Some (d - 1),
                   pp_follow_up_completed = False, pp_escalation_required = False\<rparr>] \<and>
               cr_follow_up_date r = d - 1))"
proof -
  have find_none: "\<And>P xs. (List.find P xs = None) = (\<forall>x \<in> set xs. \<not> P x)"
    by (auto simp: find_None_iff)
  have err: "\<forall>e. out = Inl e \<longrightarrow> db' = db"
    using run store_promise_result[of clk customer_id amount _ invoice_id "n + 1" db]
    unfolding create_payment_promise_def
    by (auto split: if_splits date_string.splits option.splits) (metis Inl_Inr_False prod.inject)+
  have c1: "amount \<le> 0 \<longrightarrow> out = Inl Amount_not_positive"
    using run unfolding create_payment_promise_def by auto
  have c2: "\<forall>d. ds = Good_date d \<and> d \<le> date_of (clk n) \<longrightarrow> (\<exists>e. out = Inl e)"
    using run unfolding create_payment_promise_def by (auto split: if_splits)
  have c3: "customer_id \<notin> c_customer_id ` set (customers db) \<longrightarrow> (\<exists>e. out = Inl e)"
  proof
    assume "customer_id \<notin> c_customer_id ` set (customers db)"
    then have "List.find (\<lambda>c. c_customer_id c = customer_id) (customers db) = None"
      unfolding find_none by auto
    then show "\<exists>e. out = Inl e"
      using run unfolding create_payment_promise_def
      by (auto split: if_splits date_string.splits)
  qed
  have viol: "validate_invoice customer_id amount invoice_id db \<noteq> None \<Longrightarrow> \<exists>e. out = Inl e"
    using run unfolding create_payment_promise_def
    by (auto split: if_splits date_string.splits option.splits)
  have c4: "truthy_int invoice_id \<and>
          (\<forall>i \<in> set (invoices db). Some (i_invoice_id i) = invoice_id \<longrightarrow>
             i_outstanding_amount i \<le> 0 \<or> i_customer_id i \<noteq> customer_id) \<longrightarrow> (\<exists>e. out = Inl e)"
  proof
    assume h: "truthy_int invoice_id \<and>
          (\<forall>i \<in> set (invoices db). Some (i_invoice_id i) = invoice_id \<longrightarrow>
             i_outstanding_amount i \<le> 0 \<or> i_customer_id i \<noteq> customer_id)"
    then have "List.find (\<lambda>i. Some (i_invoice_id i) = invoice_id \<and> i_customer_id i = customer_id \<and>
                 i_outstanding_amount i > 0) (invoices db) = None"
      unfolding find_none by fastforce
    with h have "validate_invoice customer_id amount invoice_id db \<noteq> None"
      by (simp add: validate_invoice_def)
    then show "\<exists>e. out = Inl e" by (rule viol)
  qed
  have c5: "truthy_int invoice_id \<and>
          (\<exists>i \<in> set (invoices db). Some (i_invoice_id i) = invoice_id \<and>
             amount > i_outstanding_amount i) \<longrightarrow> (\<exists>e. out = Inl e)"
  proof
    assume h: "truthy_int invoice_id \<and>
          (\<exists>i \<in> set (invoices db). Some (i_invoice_id i) = invoice_id \<and>
             amount > i_outstanding_amount i)"
    then obtain i where i: "i \<in> set (invoices db)" "Some (i_invoice_id i) = invoice_id"
      "amount > i_outstanding_amount i" by blast
    have "validate_invoice customer_id amount invoice_id db \<noteq> None"
    proof (cases "List.find (\<lambda>i. Some (i_invoice_id i) = invoice_id \<and> i_customer_id i = customer_id \<and>
                 i_outstanding_amount i > 0) (invoices db)")
      case None
      with h show ?thesis by (simp add: validate_invoice_def)
    next
      case (Some i')
      then have "i' \<in> set (invoices db)" "Some (i_invoice_id i') = invoice_id"
        by (auto simp: find_Some_iff in_set_conv_nth)
      with i di have "i' = i" by (metis distinct_map inj_onD option.inject)
      with Some h i show ?thesis by (simp add: validate_invoice_def)
    qed
    then show "\<exists>e. out = Inl e" by (rule viol)
  qed
  have ok: "\<forall>r. out = Inr r \<longrightarrow>
            (\<exists>d. ds = Good_date d \<and>
               payment_promises db' = payment_promises db @
                 [\<lparr>pp_promise_id = cr_promise_id r, pp_customer_id = customer_id,
                   pp_invoice_id = invoice_id, pp_promise_date = date_of (clk (n + 1)),
                   pp_promised_amount = amount, pp_promised_payment_date = d,
                   pp_status = P_ACTIVE, pp_actual_payment_date = None,
                   pp_actual_payment_amount = None, pp_follow_up_date = Some (d - 1),
                   pp_follow_up_completed = False, pp_escalation_required = False\<rparr>] \<and>
               cr_follow_up_date r = d - 1)"
  proof (intro allI impI)
    fix r assume r: "out = Inr r"
    with run obtain d where d: "ds = Good_date d"
      and sp: "store_promise clk customer_id amount d invoice_id (n + 1) db = (Inr r, n', db')"
      unfolding create_payment_promise_def
      by (auto split: if_splits date_string.splits option.splits)
    from store_promise_result[of clk customer_id amount d invoice_id "n + 1" db] sp
    have "payment_promises db' = payment_promises db @
       [\<lparr>pp_promise_id = next_promise_id db, pp_customer_id = customer_id, pp_invoice_id = invoice_id,
         pp_promise_date = date_of (clk (n + 1)), pp_promised_amount = amount,
         pp_promised_payment_date = d, pp_status = P_ACTIVE,
         pp_actual_payment_date = None, pp_actual_payment_amount = None,
         pp_follow_up_date = Some (d - 1), pp_follow_up_completed = False,
         pp_escalation_required = False\<rparr>]"
      "cr_promise_id r = next_promise_id db" "cr_follow_up_date r = d - 1"
      by auto
    with d show "\<exists>d. ds = Good_date d \<and>
               payment_promises db' = payment_promises db @
                 [\<lparr>pp_promise_id = cr_promise_id r, pp_customer_id = customer_id,
                   pp_invoice_id = invoice_id, pp_promise_date = date_of (clk (n + 1)),
                   pp_promised_amount = amount, pp_promised_payment_date = d,
                   pp_status = P_ACTIVE, pp_actual_payment_date = None,
                   pp_actual_payment_amount = None, pp_follow_up_date = Some (d - 1),
                   pp_follow_up_completed = False, pp_escalation_required = False\<rparr>] \<and>
               cr_follow_up_date r = d - 1"
      by simp
  qed
  from err c1 c2 c3 c4 c5 ok show ?thesis by blast
qed

text \<open>
  On \<open>promise_db\<close> a promise of 1000 on invoice 10 is stored as ACTIVE with its follow-up
  the day before, and a promise of 0 is rejected without a change.
\<close>

theorem create_payment_promise_validates_witness:
  "distinct (map i_invoice_id (invoices promise_db)) \<and>
   fst (create_payment_promise clock0 1 1000 (Good_date 19680) (Some 10) 0 promise_db) =
     Inr \<lparr>cr_promise_id = 4, cr_promised_amount = 1000, cr_promised_date = 19680,
          cr_follow_up_date = 19679\<rparr> \<and>
   pp_status (last (payment_promises promise_db_created)) = P_ACTIVE \<and>
   pp_follow_up_date (last (payment_promises promise_db_created)) = Some (19680 - 1) \<and>
   create_payment_promise clock0 1 0 (Good_date 19680) (Some 10) 0 promise_db =
     (Inl Amount_not_positive,
      fst (snd (create_payment_promise clock0 1 0 (Good_date 19680) (Some 10) 0 promise_db)),
      promise_db)"
proof -
  have di: "distinct (map i_invoice_id (invoices promise_db))" by code_simp
  let ?r = "\<lparr>cr_promise_id = 4, cr_promised_amount = 1000, cr_promised_date = 19680,
          cr_follow_up_date = 19679\<rparr>"
  have out: "fst (create_payment_promise clock0 1 1000 (Good_date 19680) (Some 10) 0 promise_db) = Inr ?r"
    by code_simp
  then have run: "create_payment_promise clock0 1 1000 (Good_date 19680) (Some 10) 0 promise_db =
     (Inr ?r,
      fst (snd (create_payment_promise clock0 1 1000 (Good_date 19680) (Some 10) 0 promise_db)),
      promise_db_created)"
    by (simp add: promise_db_created_def prod_eq_iff)
  from create_payment_promise_validates[OF di run]
  have "\<exists>d. Good_date 19680 = Good_date d \<and>
               payment_promises promise_db_created = payment_promises promise_db @
                 [\<lparr>pp_promise_id = cr_promise_id ?r, pp_customer_id = 1,
                   pp_invoice_id = Some 10, pp_promise_date = date_of (clock0 (0 + 1)),
                   pp_promised_amount = 1000, pp_promised_payment_date = d,
                   pp_status = P_ACTIVE, pp_actual_payment_date = None,
                   pp_actual_payment_amount = None, pp_follow_up_date = Some (d - 1),
                   pp_follow_up_completed = False, pp_escalation_required = False\<rparr>] \<and>
               cr_follow_up_date ?r = d - 1"
    by blast
  then have ok: "pp_status (last (payment_promises promise_db_created)) = P_ACTIVE"
    "pp_follow_up_date (last (payment_promises promise_db_created)) = Some (19680 - 1)"
    by auto
  let ?bad = "create_payment_promise clock0 1 0 (Good_date 19680) (Some 10) 0 promise_db"
  have run2: "?bad = (fst ?bad, fst (snd ?bad), snd (snd ?bad))" by simp
  note th2 = create_payment_promise_validates[OF di run2]
  from th2 have o2: "fst ?bad = Inl Amount_not_positive" by simp
  with th2 have "snd (snd ?bad) = promise_db" by blast
  with o2 have "?bad = (Inl Amount_not_positive, fst (snd ?bad), promise_db)"
    by (simp add: prod_eq_iff)
  with di out ok show ?thesis by simp
qed

section \<open>Priority scoring: the range of the score\<close>

text \<open>
  C9. The priority score of a customer with outstanding invoices should be the weighted
  sum of the five component scores clamped to the range from 0 to 100, and so lie in that
  range. It does not on \<open>score_db\<close>: customer 2 has two outstanding invoices, one of them
  due in 90 days, so that its days score is \<open>-90 * 0.8\<close> and the aging score is negative.
  \<open>calculate_customer_priority_score\<close> returns the weighted sum rounded to two places
  without clamping it, here the float \<open>-3.51\<close>.
\<close>

theorem priority_score_below_zero:
  "length (get_outstanding_invoices 2 score_db) = 2 \<and>
   calculate_aging_score ieee_double (get_outstanding_invoices 2 score_db) < 0 \<and>
   map_sum id sr_priority_score
     (fst (calculate_customer_priority_score ieee_double clock0 2 0 score_db)) =
     Inr (double_round (- 351 / 100)) \<and>
   double_round (- 351 / 100) < 0"
  by code_simp


end
